theory Spec2Isabelle
  imports Main
begin

section \<open>Stream tracker manager (package sfu)\<close>

text \<open>
  The manager keeps one tracker slot per spatial layer in a fixed-size array, the sorted
  list of the layers that are currently available, and the highest layer that is expected.
  Layers are Go \<open>int32\<close> values. They are modelled as integers, and where the source
  computes in \<open>int32\<close> (the loop counter of \<open>SetMaxExpectedSpatialLayer\<close> and the comparison
  of \<open>IsReducedQuality\<close>) the wrap-around is written out.
\<close>

definition DefaultMaxLayerSpatial :: int where
  \<comment> \<open>Modelled from the spec: the constant \<open>DefaultMaxLayerSpatial\<close> is declared outside the
      files at hand; the data model gives \<open>MAX_SPATIAL = 2\<close>, that is three slots.\<close>
  "DefaultMaxLayerSpatial = 2"

definition int32 :: "int \<Rightarrow> int" where
  \<comment> \<open>Conversion to (and arithmetic in) Go's \<open>int32\<close>: two's complement wrap-around.\<close>
  "int32 x = (x + 2147483648) mod 4294967296 - 2147483648"

text \<open>
  Modelled from the spec: the type \<open>StreamStatus\<close> and the tracker itself are declared
  outside the files at hand. A tracker reports \<open>Active\<close> or \<open>Stopped\<close>; the manager only
  compares the status with \<open>StreamStatusStopped\<close>. A \<open>*StreamTracker\<close> is a reference to a
  tracker object, and the reference is its identity.
\<close>

datatype StreamStatus = StreamStatusStopped | StreamStatusActive

type_synonym StreamTracker = nat

datatype panic = IndexOutOfRange int nat

record StreamTrackerManager =
  trackers :: "StreamTracker option list"
  availableLayers :: "int list"
  maxExpectedLayer :: int
  onAvailableLayersChanged :: bool

text \<open>
  The field \<open>onAvailableLayersChanged\<close> says whether a callback is registered (non-nil).
  An invocation of the callback is modelled by its argument: every operation that may call
  it returns the list of layer lists delivered, in order. In the same way an operation
  that resets or stops trackers returns them, in call order.
\<close>

definition NewStreamTrackerManager :: StreamTrackerManager where
  "NewStreamTrackerManager =
     \<lparr> trackers = replicate (nat (DefaultMaxLayerSpatial + 1)) None,
       availableLayers = [],
       maxExpectedLayer = DefaultMaxLayerSpatial,
       onAvailableLayersChanged = False \<rparr>"

definition OnAvailableLayersChanged :: "bool \<Rightarrow> StreamTrackerManager \<Rightarrow> StreamTrackerManager" where
  "OnAvailableLayersChanged f s = s\<lparr>onAvailableLayersChanged := f\<rparr>"

definition AddTracker ::
  "int \<Rightarrow> StreamTracker \<Rightarrow> StreamTrackerManager \<Rightarrow> panic + StreamTrackerManager" where
  \<comment> \<open>\<open>s.trackers[layer] = tracker\<close>, with the new tracker as an argument. Indexing the array
      outside its bounds is a run-time panic.\<close>
  "AddTracker layer tracker s =
     (if layer < 0 \<or> int (length (trackers s)) \<le> layer
        then Inl (IndexOutOfRange layer (length (trackers s)))
      else Inr (s\<lparr>trackers := (trackers s)[nat layer := Some tracker]\<rparr>))"

definition RemoveTracker ::
  "int \<Rightarrow> StreamTrackerManager \<Rightarrow> panic + (StreamTrackerManager \<times> StreamTracker list)" where
  \<comment> \<open>Returns the new manager and the tracker that is stopped, if the slot held one.\<close>
  "RemoveTracker layer s =
     (if layer < 0 \<or> int (length (trackers s)) \<le> layer
        then Inl (IndexOutOfRange layer (length (trackers s)))
      else Inr (s\<lparr>trackers := (trackers s)[nat layer := None]\<rparr>,
                case trackers s ! nat layer of None \<Rightarrow> [] | Some tracker \<Rightarrow> [tracker]))"

fun containsLayer :: "int list \<Rightarrow> int \<Rightarrow> bool" where
  \<comment> \<open>\<open>for _, l := range ls { if l == layer { return true } }; return false\<close>\<close>
  "containsLayer [] layer = False"
| "containsLayer (l # ls) layer = (if l = layer then True else containsLayer ls layer)"

definition hasSpatialLayerLocked :: "StreamTrackerManager \<Rightarrow> int \<Rightarrow> bool" where
  "hasSpatialLayerLocked s layer = containsLayer (availableLayers s) layer"

definition HasSpatialLayer :: "StreamTrackerManager \<Rightarrow> int \<Rightarrow> bool" where
  "HasSpatialLayer s layer = hasSpatialLayerLocked s layer"

definition sortSlice :: "int list \<Rightarrow> int list" where
  \<comment> \<open>\<open>sort.Slice\<close> with the comparison \<open><\<close> on the elements: a sorted permutation of the
      slice, which for integers is unique.\<close>
  "sortSlice xs = sort xs"

partial_function (option) collectTrackersToReset ::
  "StreamTrackerManager \<Rightarrow> int \<Rightarrow> int \<Rightarrow> StreamTracker list \<Rightarrow>
     (panic + StreamTracker list) option" where
  \<comment> \<open>The loop \<open>for l := ...; l <= layer; l++\<close> of \<open>SetMaxExpectedSpatialLayer\<close>. The counter
      is an \<open>int32\<close>: after the largest value \<open>l++\<close> wraps, and the loop goes on. The result
      \<open>None\<close> stands for a loop that does not end.\<close>
  "collectTrackersToReset s l layer acc =
     (if l \<le> layer then
        (if hasSpatialLayerLocked s l then collectTrackersToReset s (int32 (l + 1)) layer acc
         else if l < 0 \<or> int (length (trackers s)) \<le> l
           then Some (Inl (IndexOutOfRange l (length (trackers s))))
         else (case trackers s ! nat l of
                 Some tracker \<Rightarrow> collectTrackersToReset s (int32 (l + 1)) layer (acc @ [tracker])
               | None \<Rightarrow> collectTrackersToReset s (int32 (l + 1)) layer acc))
      else Some (Inr acc))"

definition SetMaxExpectedSpatialLayer ::
  "int \<Rightarrow> StreamTrackerManager \<Rightarrow>
     (panic + (StreamTrackerManager \<times> StreamTracker list)) option" where
  \<comment> \<open>Returns the new manager and the trackers on which \<open>Reset\<close> is called, in call order.\<close>
  "SetMaxExpectedSpatialLayer layer s =
     (if layer \<le> maxExpectedLayer s then Some (Inr (s\<lparr>maxExpectedLayer := layer\<rparr>, []))
      else (case collectTrackersToReset s (int32 (maxExpectedLayer s + 1)) layer [] of
              None \<Rightarrow> None
            | Some (Inl p) \<Rightarrow> Some (Inl p)
            | Some (Inr trackersToReset) \<Rightarrow>
                Some (Inr (s\<lparr>maxExpectedLayer := layer\<rparr>, trackersToReset))))"

definition IsReducedQuality :: "StreamTrackerManager \<Rightarrow> bool" where
  "IsReducedQuality s =
     (int32 (int (length (availableLayers s))) < int32 (maxExpectedLayer s + 1))"

definition GetAvailableLayers :: "StreamTrackerManager \<Rightarrow> int list" where
  "GetAvailableLayers s = availableLayers s"

definition addAvailableLayer ::
  "int \<Rightarrow> StreamTrackerManager \<Rightarrow> StreamTrackerManager \<times> int list list" where
  "addAvailableLayer layer s =
     (if containsLayer (availableLayers s) layer then (s, [])
      else
        (let layers = sortSlice (availableLayers s @ [layer]);
             s' = s\<lparr>availableLayers := layers\<rparr>
         in (s', if onAvailableLayersChanged s then [layers] else [])))"

fun withoutLayer :: "int list \<Rightarrow> int \<Rightarrow> int list" where
  \<comment> \<open>\<open>for _, l := range ls { if l != layer { newLayers = append(newLayers, l) } }\<close>\<close>
  "withoutLayer [] layer = []"
| "withoutLayer (l # ls) layer =
     (if l \<noteq> layer then l # withoutLayer ls layer else withoutLayer ls layer)"

definition removeAvailableLayer ::
  "int \<Rightarrow> StreamTrackerManager \<Rightarrow> StreamTrackerManager \<times> int list list" where
  "removeAvailableLayer layer s =
     (let newLayers = sortSlice (withoutLayer (availableLayers s) layer);
          s' = s\<lparr>availableLayers := newLayers\<rparr>
      in (s', if onAvailableLayersChanged s then [newLayers] else []))"

definition onStatusChanged ::
  "int \<Rightarrow> StreamStatus \<Rightarrow> StreamTrackerManager \<Rightarrow> StreamTrackerManager \<times> int list list" where
  \<comment> \<open>The closure that \<open>AddTracker(layer)\<close> registers on the layer's tracker.\<close>
  "onStatusChanged layer status s =
     (if status = StreamStatusStopped then removeAvailableLayer layer s
      else addAvailableLayer layer s)"

fun notifyAll ::
  "(int \<times> StreamStatus) list \<Rightarrow> StreamTrackerManager \<Rightarrow> StreamTrackerManager \<times> int list list" where
  \<comment> \<open>A sequence of status notifications, delivered one after the other.\<close>
  "notifyAll [] s = (s, [])"
| "notifyAll ((layer, status) # ns) s =
     (case onStatusChanged layer status s of
        (s', delivered) \<Rightarrow>
          (case notifyAll ns s' of (s'', delivered') \<Rightarrow> (s'', delivered @ delivered')))"

section \<open>Peer-connection transport (package rtc)\<close>

subsection \<open>Values exchanged with the WebRTC engine\<close>

text \<open>
  The types below are those of the engine's interface that \<open>transport.go\<close> reads or
  passes on. Go's \<open>error\<close> values are opaque to the transport; they are modelled by their
  message.
\<close>

type_synonym error = string

datatype SDPType = SDPTypeOffer | SDPTypePranswer | SDPTypeAnswer | SDPTypeRollback

record SessionDescription =
  Type :: SDPType
  SDP :: string

record ICECandidateInit =
  Candidate :: string
  SDPMid :: "string option"
  SDPMLineIndex :: "nat option"
  UsernameFragment :: "string option"

record OfferOptions =
  ICERestart :: bool

datatype PeerConnectionState =
    PeerConnectionStateNew | PeerConnectionStateConnecting | PeerConnectionStateConnected
  | PeerConnectionStateDisconnected | PeerConnectionStateFailed | PeerConnectionStateClosed

datatype ICEGatheringState =
  ICEGatheringStateNew | ICEGatheringStateGathering | ICEGatheringStateComplete

datatype ICEGathererState =
    ICEGathererStateNew | ICEGathererStateGathering | ICEGathererStateComplete
  | ICEGathererStateClosed

datatype RTPCodecType = RTPCodecTypeAudio | RTPCodecTypeVideo

record RTPCodecCapability =
  MimeType :: string
  ClockRate :: nat
  Channels :: nat
  SDPFmtpLine :: string

record RTPCodecParameters =
  Capability :: RTPCodecCapability
  PayloadType :: nat

record TrackLocal =
  TrackID :: string
  TrackKind :: RTPCodecType

record RTPSender =
  Track :: "TrackLocal option"
  Codecs :: "RTPCodecParameters list"

record RTPTransceiver =
  Mid :: string
  Kind :: RTPCodecType
  Sender :: "RTPSender option"

text \<open>
  The peer connection itself belongs to the engine. Its internal state is a type
  parameter \<open>'pc\<close>, and its methods are the fields of the record below: the queries read
  the state, the calls return their result together with the state they leave behind.
  Nothing is assumed about when a call fails or what it does to the state.
\<close>

record 'pc PeerConnection =
  pcRemoteDescription :: "'pc \<Rightarrow> SessionDescription option"
  pcCurrentRemoteDescription :: "'pc \<Rightarrow> SessionDescription option"
  pcConnectionState :: "'pc \<Rightarrow> PeerConnectionState"
  pcICEGatheringState :: "'pc \<Rightarrow> ICEGatheringState"
  pcGetTransceivers :: "'pc \<Rightarrow> RTPTransceiver list"
  pcSetRemoteDescription :: "'pc \<Rightarrow> SessionDescription \<Rightarrow> error option \<times> 'pc"
  pcAddICECandidate :: "'pc \<Rightarrow> ICECandidateInit \<Rightarrow> error option \<times> 'pc"
  pcCreateOffer :: "'pc \<Rightarrow> OfferOptions option \<Rightarrow> (error + SessionDescription) \<times> 'pc"
  pcSetLocalDescription :: "'pc \<Rightarrow> SessionDescription \<Rightarrow> error option \<times> 'pc"

text \<open>
  What the transport does to the outside world is a list of calls, in the order they are
  made: the mutating calls on the peer connection with their results, and the delivery of
  an offer to the registered handler (\<open>go t.onOffer(offer)\<close>).
\<close>

datatype pcCall =
    CallSetRemoteDescription SessionDescription "error option"
  | CallAddICECandidate ICECandidateInit "error option"
  | CallCreateOffer "OfferOptions option" "error + SessionDescription"
  | CallSetLocalDescription SessionDescription "error option"
  | CallOnOffer SessionDescription

subsection \<open>The transport\<close>

datatype NegotiationState = negotiationStateNone | negotiationStateClient | negotiationRetry

text \<open>
  The fields of \<open>PCTransport\<close> that the operations read or write. \<open>onOffer\<close> says whether
  a handler is registered (non-nil). The media engine, the mutex and the debouncer are
  left out: the operations below are the bodies that run under the lock.
\<close>

record 'pc PCTransport =
  pc :: 'pc
  transceiverCodecs :: "string \<Rightarrow> RTPCodecCapability list option"
  pendingCandidates :: "ICECandidateInit list"
  onOffer :: bool
  restartAfterGathering :: bool
  negotiationState :: NegotiationState

definition NewPCTransport :: "'pc \<Rightarrow> 'pc PCTransport" where
  "NewPCTransport p =
     \<lparr> pc = p, transceiverCodecs = Map.empty, pendingCandidates = [], onOffer = False,
       restartAfterGathering = False, negotiationState = negotiationStateNone \<rparr>"

definition OnOffer :: "bool \<Rightarrow> 'pc PCTransport \<Rightarrow> 'pc PCTransport" where
  "OnOffer f t = t\<lparr>onOffer := f\<rparr>"

definition AddICECandidate ::
  "'pc PeerConnection \<Rightarrow> ICECandidateInit \<Rightarrow> 'pc PCTransport \<Rightarrow>
     error option \<times> 'pc PCTransport \<times> pcCall list" where
  "AddICECandidate eng candidate t =
     (if pcRemoteDescription eng (pc t) = None
        then (None, t\<lparr>pendingCandidates := pendingCandidates t @ [candidate]\<rparr>, [])
      else (case pcAddICECandidate eng (pc t) candidate of
              (res, p') \<Rightarrow> (res, t\<lparr>pc := p'\<rparr>, [CallAddICECandidate candidate res])))"

fun codecMatches :: "RTPCodecCapability list \<Rightarrow> RTPCodecCapability \<Rightarrow> bool" where
  \<comment> \<open>\<open>for _, params := range ... { if params.MimeType == codec.MimeType { ...; break } }\<close>\<close>
  "codecMatches [] codec = False"
| "codecMatches (params # rest) codec =
     (if MimeType params = MimeType codec then True else codecMatches rest codec)"

definition codecsOfMid ::
  "(string \<Rightarrow> RTPCodecCapability list option) \<Rightarrow> string \<Rightarrow> RTPCodecCapability list" where
  \<comment> \<open>Reading a Go map at a missing key gives the nil slice.\<close>
  "codecsOfMid m k = (case m k of None \<Rightarrow> [] | Some codecs \<Rightarrow> codecs)"

fun firstTransceiverForSending ::
  "RTPTransceiver list \<Rightarrow> (string \<Rightarrow> RTPCodecCapability list option) \<Rightarrow> TrackLocal \<Rightarrow>
     RTPCodecCapability \<Rightarrow> RTPTransceiver option" where
  "firstTransceiverForSending [] m track codec = None"
| "firstTransceiverForSending (transceiver # rest) m track codec =
     (if Kind transceiver \<noteq> TrackKind track then firstTransceiverForSending rest m track codec
      else (case Sender transceiver of
              None \<Rightarrow> firstTransceiverForSending rest m track codec
            | Some sender \<Rightarrow>
                if Track sender \<noteq> None then firstTransceiverForSending rest m track codec
                else if codecMatches (codecsOfMid m (Mid transceiver)) codec then Some transceiver
                else firstTransceiverForSending rest m track codec))"

definition GetTransceiverForSending ::
  "'pc PeerConnection \<Rightarrow> TrackLocal \<Rightarrow> RTPCodecCapability \<Rightarrow> 'pc PCTransport \<Rightarrow>
     RTPTransceiver option" where
  "GetTransceiverForSending eng track codec t =
     firstTransceiverForSending (pcGetTransceivers eng (pc t)) (transceiverCodecs t) track codec"

fun recordTransceiverCodecs ::
  "RTPTransceiver list \<Rightarrow> (string \<Rightarrow> RTPCodecCapability list option) \<Rightarrow>
     (string \<Rightarrow> RTPCodecCapability list option)" where
  \<comment> \<open>The loop at the end of \<open>createAndSendOffer\<close>: record any transceiver and its codec types.\<close>
  "recordTransceiverCodecs [] m = m"
| "recordTransceiverCodecs (transceiver # rest) m =
     (case Sender transceiver of
        None \<Rightarrow> recordTransceiverCodecs rest m
      | Some sender \<Rightarrow>
          if Track sender = None then recordTransceiverCodecs rest m
          else recordTransceiverCodecs rest
                 (m(Mid transceiver \<mapsto> map Capability (Codecs sender))))"

definition createOfferAndSend ::
  "'pc PeerConnection \<Rightarrow> OfferOptions option \<Rightarrow> 'pc PCTransport \<Rightarrow>
     error option \<times> 'pc PCTransport \<times> pcCall list" where
  \<comment> \<open>The second half of \<open>createAndSendOffer\<close>, from \<open>t.pc.CreateOffer(options)\<close> to the end.\<close>
  "createOfferAndSend eng options t =
     (case pcCreateOffer eng (pc t) options of
        (Inl err, p1) \<Rightarrow> (Some err, t\<lparr>pc := p1\<rparr>, [CallCreateOffer options (Inl err)])
      | (Inr offer, p1) \<Rightarrow>
          (case pcSetLocalDescription eng p1 offer of
             (Some err, p2) \<Rightarrow>
               (Some err, t\<lparr>pc := p2\<rparr>,
                [CallCreateOffer options (Inr offer), CallSetLocalDescription offer (Some err)])
           | (None, p2) \<Rightarrow>
               (None,
                t\<lparr>pc := p2,
                  negotiationState := negotiationStateClient,
                  restartAfterGathering := False,
                  transceiverCodecs :=
                    recordTransceiverCodecs (pcGetTransceivers eng p2) (transceiverCodecs t)\<rparr>,
                [CallCreateOffer options (Inr offer), CallSetLocalDescription offer None,
                 CallOnOffer offer])))"

definition iceRestartRequested :: "OfferOptions option \<Rightarrow> bool" where
  \<comment> \<open>\<open>iceRestart := options != nil && options.ICERestart\<close>\<close>
  "iceRestartRequested options = (case options of None \<Rightarrow> False | Some opts \<Rightarrow> ICERestart opts)"

definition createAndSendOffer ::
  "'pc PeerConnection \<Rightarrow> OfferOptions option \<Rightarrow> 'pc PCTransport \<Rightarrow>
     error option \<times> 'pc PCTransport \<times> pcCall list" where
  "createAndSendOffer eng options t =
     (if \<not> onOffer t then (None, t, [])
      else if pcConnectionState eng (pc t) = PeerConnectionStateClosed then (None, t, [])
      else
        (let iceRestart = iceRestartRequested options in
         if iceRestart \<and> pcICEGatheringState eng (pc t) = ICEGatheringStateGathering
           then (None, t\<lparr>restartAfterGathering := True\<rparr>, [])
         else if negotiationState t = negotiationStateClient then
           (case pcCurrentRemoteDescription eng (pc t) of
              None \<Rightarrow> (None, t\<lparr>negotiationState := negotiationRetry\<rparr>, [])
            | Some currentSD \<Rightarrow>
                if iceRestart then
                  (case pcSetRemoteDescription eng (pc t) currentSD of
                     (Some err, p') \<Rightarrow>
                       (Some err, t\<lparr>pc := p'\<rparr>, [CallSetRemoteDescription currentSD (Some err)])
                   | (None, p') \<Rightarrow>
                       (case createOfferAndSend eng options (t\<lparr>pc := p'\<rparr>) of
                          (res, t', calls) \<Rightarrow>
                            (res, t', CallSetRemoteDescription currentSD None # calls)))
                else (None, t\<lparr>negotiationState := negotiationRetry\<rparr>, []))
         else if negotiationState t = negotiationRetry then (None, t, [])
         else createOfferAndSend eng options t))"

definition CreateAndSendOffer ::
  "'pc PeerConnection \<Rightarrow> OfferOptions option \<Rightarrow> 'pc PCTransport \<Rightarrow>
     error option \<times> 'pc PCTransport \<times> pcCall list" where
  "CreateAndSendOffer eng options t = createAndSendOffer eng options t"

definition onICEGatheringStateChange ::
  "'pc PeerConnection \<Rightarrow> ICEGathererState \<Rightarrow> 'pc PCTransport \<Rightarrow> 'pc PCTransport \<times> pcCall list" where
  \<comment> \<open>The handler that \<open>NewPCTransport\<close> installs on the peer connection; an error of the
      offer is logged and dropped.\<close>
  "onICEGatheringStateChange eng state t =
     (if state = ICEGathererStateComplete then
        (if restartAfterGathering t
           then snd (createAndSendOffer eng (Some \<lparr>ICERestart = True\<rparr>) t)
         else (t, []))
      else (t, []))"

fun drainPendingCandidates ::
  "'pc PeerConnection \<Rightarrow> ICECandidateInit list \<Rightarrow> 'pc \<Rightarrow> error option \<times> 'pc \<times> pcCall list" where
  \<comment> \<open>\<open>for _, c := range t.pendingCandidates { if err := t.pc.AddICECandidate(c); err != nil
      { return err } }\<close>\<close>
  "drainPendingCandidates eng [] p = (None, p, [])"
| "drainPendingCandidates eng (c # cs) p =
     (case pcAddICECandidate eng p c of
        (Some err, p') \<Rightarrow> (Some err, p', [CallAddICECandidate c (Some err)])
      | (None, p') \<Rightarrow>
          (case drainPendingCandidates eng cs p' of
             (res, p'', calls) \<Rightarrow> (res, p'', CallAddICECandidate c None # calls)))"

definition SetRemoteDescription ::
  "'pc PeerConnection \<Rightarrow> SessionDescription \<Rightarrow> 'pc PCTransport \<Rightarrow>
     error option \<times> 'pc PCTransport \<times> pcCall list" where
  "SetRemoteDescription eng sd t =
     (case pcSetRemoteDescription eng (pc t) sd of
        (Some err, p1) \<Rightarrow> (Some err, t\<lparr>pc := p1\<rparr>, [CallSetRemoteDescription sd (Some err)])
      | (None, p1) \<Rightarrow>
          (let lastState = negotiationState t;
               t1 = t\<lparr>pc := p1, negotiationState := negotiationStateNone\<rparr>
           in case drainPendingCandidates eng (pendingCandidates t1) p1 of
                (Some err, p2, calls) \<Rightarrow>
                  (Some err, t1\<lparr>pc := p2\<rparr>, CallSetRemoteDescription sd None # calls)
              | (None, p2, calls) \<Rightarrow>
                  (let t2 = t1\<lparr>pc := p2, pendingCandidates := []\<rparr> in
                   if lastState = negotiationRetry \<and> Type sd = SDPTypeAnswer then
                     (case createAndSendOffer eng None t2 of
                        (res, t3, calls') \<Rightarrow>
                          (None, t3, CallSetRemoteDescription sd None # calls @ calls'))
                   else (None, t2, CallSetRemoteDescription sd None # calls))))"

section \<open>Notions used to state the properties\<close>

subsection \<open>Stream tracker manager\<close>

fun mostRecentStatus :: "(int \<times> StreamStatus) list \<Rightarrow> int \<Rightarrow> StreamStatus option" where
  \<comment> \<open>The status of the last notification for \<open>layer\<close> in the sequence, if there is one.\<close>
  "mostRecentStatus [] layer = None"
| "mostRecentStatus ((l, status) # ns) layer =
     (case mostRecentStatus ns layer of
        Some status' \<Rightarrow> Some status'
      | None \<Rightarrow> if l = layer then Some status else None)"

definition layersAfter :: "(int \<times> StreamStatus) list \<Rightarrow> int list \<Rightarrow> int set" where
  \<comment> \<open>The layers whose most recent notification was not \<open>Stopped\<close>; a layer that was not
      notified at all keeps its membership in the initial list \<open>ls\<close>.\<close>
  "layersAfter ns ls =
     {l. case mostRecentStatus ns l of
           Some status \<Rightarrow> status \<noteq> StreamStatusStopped
         | None \<Rightarrow> l \<in> set ls}"

definition managerInv :: "StreamTrackerManager \<Rightarrow> bool" where
  \<comment> \<open>What holds of every manager built by \<open>NewStreamTrackerManager\<close> and driven through its
      operations: the available layers are strictly sorted slot indices, and the expected
      layer is an \<open>int32\<close> that does not exceed the highest slot.\<close>
  "managerInv s \<longleftrightarrow>
     sorted_wrt (<) (availableLayers s) \<and>
     list_all (\<lambda>l. 0 \<le> l \<and> l \<le> DefaultMaxLayerSpatial) (availableLayers s) \<and>
     int (length (trackers s)) = DefaultMaxLayerSpatial + 1 \<and>
     - 2147483648 \<le> maxExpectedLayer s \<and> maxExpectedLayer s \<le> DefaultMaxLayerSpatial"

definition resetsOfLayer :: "StreamTrackerManager \<Rightarrow> int \<Rightarrow> StreamTracker list" where
  \<comment> \<open>The tracker of layer \<open>l\<close>, if the layer is not available and its slot is occupied.\<close>
  "resetsOfLayer s l =
     (if l \<in> set (availableLayers s) then []
      else (case trackers s ! nat l of Some tracker \<Rightarrow> [tracker] | None \<Rightarrow> []))"

definition expectedResets :: "StreamTrackerManager \<Rightarrow> int \<Rightarrow> StreamTracker list" where
  \<comment> \<open>In ascending layer order, the trackers of the layers above the old bound and up to
      \<open>layer\<close> that are not available and whose slot is occupied.\<close>
  "expectedResets s layer = concat (map (resetsOfLayer s) [maxExpectedLayer s + 1 .. layer])"

definition isSlot :: "StreamTrackerManager \<Rightarrow> int \<Rightarrow> bool" where
  \<comment> \<open>The loop passes layer \<open>l\<close>: it is available, or it is an index of the tracker array.\<close>
  "isSlot s l \<longleftrightarrow> l \<in> set (availableLayers s) \<or> (0 \<le> l \<and> l < int (length (trackers s)))"

definition slotsInRange :: "StreamTrackerManager \<Rightarrow> int \<Rightarrow> bool" where
  \<comment> \<open>Every layer above the old bound and up to \<open>layer\<close> that is not available is an index
      of the tracker array.\<close>
  "slotsInRange s layer \<longleftrightarrow> list_all (isSlot s) [maxExpectedLayer s + 1 .. layer]"

definition scenarioS3 :: StreamTrackerManager where
  \<comment> \<open>Layer 0 available, layer 1 installed but stopped, layer 2 absent; layer 0 expected.\<close>
  "scenarioS3 =
     \<lparr> trackers = [Some 10, Some 11, None], availableLayers = [0], maxExpectedLayer = 0,
       onAvailableLayersChanged = True \<rparr>"

definition exampleNotifications :: "(int \<times> StreamStatus) list" where
  "exampleNotifications =
     [(0, StreamStatusActive), (2, StreamStatusActive), (1, StreamStatusActive),
      (2, StreamStatusStopped), (1, StreamStatusActive), (1, StreamStatusStopped),
      (2, StreamStatusActive)]"

subsection \<open>Peer-connection transport\<close>

definition offerGuardsPass :: "'pc PeerConnection \<Rightarrow> OfferOptions option \<Rightarrow> 'pc PCTransport \<Rightarrow> bool" where
  \<comment> \<open>The three guards at the head of \<open>createAndSendOffer\<close> let the run through: a handler
      is registered, the peer connection is not closed, and the request is not an ICE
      restart made while the peer connection is gathering.\<close>
  "offerGuardsPass eng options t \<longleftrightarrow>
     onOffer t \<and> pcConnectionState eng (pc t) \<noteq> PeerConnectionStateClosed \<and>
     \<not> (iceRestartRequested options \<and> pcICEGatheringState eng (pc t) = ICEGatheringStateGathering)"

definition suitableForSending ::
  "(string \<Rightarrow> RTPCodecCapability list option) \<Rightarrow> TrackLocal \<Rightarrow> RTPCodecCapability \<Rightarrow>
     RTPTransceiver \<Rightarrow> bool" where
  \<comment> \<open>The three conditions on a transceiver, with the recorded codecs \<open>m\<close>.\<close>
  "suitableForSending m track codec transceiver \<longleftrightarrow>
     Kind transceiver = TrackKind track \<and>
     (\<exists>sender. Sender transceiver = Some sender \<and> Track sender = None) \<and>
     (\<exists>params \<in> set (codecsOfMid m (Mid transceiver)). MimeType params = MimeType codec)"

text \<open>
  Sequences of calls on a transport: candidates and remote descriptions, in any order.
  A run returns the result of every call, the transport at the end, and everything that
  was called on the peer connection.
\<close>

datatype transportOp = OpAddICECandidate ICECandidateInit | OpSetRemoteDescription SessionDescription

fun applyOps ::
  "'pc PeerConnection \<Rightarrow> transportOp list \<Rightarrow> 'pc PCTransport \<Rightarrow>
     error option list \<times> 'pc PCTransport \<times> pcCall list" where
  "applyOps eng [] t = ([], t, [])"
| "applyOps eng (OpAddICECandidate c # ops) t =
     (case AddICECandidate eng c t of
        (res, t', calls) \<Rightarrow>
          (case applyOps eng ops t' of (ress, t'', calls') \<Rightarrow> (res # ress, t'', calls @ calls')))"
| "applyOps eng (OpSetRemoteDescription sd # ops) t =
     (case SetRemoteDescription eng sd t of
        (res, t', calls) \<Rightarrow>
          (case applyOps eng ops t' of (ress, t'', calls') \<Rightarrow> (res # ress, t'', calls @ calls')))"

abbreviation applied :: "ICECandidateInit \<Rightarrow> pcCall" where
  "applied c \<equiv> CallAddICECandidate c None"

fun isOfferCall :: "pcCall \<Rightarrow> bool" where
  "isOfferCall (CallCreateOffer options res) = True"
| "isOfferCall (CallSetLocalDescription offer res) = True"
| "isOfferCall (CallOnOffer offer) = True"
| "isOfferCall (CallSetRemoteDescription sd res) = False"
| "isOfferCall (CallAddICECandidate c res) = False"

fun submitted :: "transportOp list \<Rightarrow> ICECandidateInit list" where
  \<comment> \<open>The candidates that a sequence of calls submits, in order.\<close>
  "submitted [] = []"
| "submitted (OpAddICECandidate c # ops) = c # submitted ops"
| "submitted (OpSetRemoteDescription sd # ops) = submitted ops"

fun isRefusedDescription :: "pcCall \<Rightarrow> bool" where
  \<comment> \<open>A remote description that the peer connection refused.\<close>
  "isRefusedDescription (CallSetRemoteDescription sd (Some err)) = True"
| "isRefusedDescription (CallSetRemoteDescription sd None) = False"
| "isRefusedDescription (CallAddICECandidate c res) = False"
| "isRefusedDescription (CallCreateOffer options res) = False"
| "isRefusedDescription (CallSetLocalDescription offer res) = False"
| "isRefusedDescription (CallOnOffer offer) = False"

subsection \<open>A scripted peer connection\<close>

text \<open>
  A small peer connection on which the operations can be run. It keeps the descriptions
  and states that the transport reads, and a script: every mutating call takes the next
  entry of the script as its outcome (\<open>True\<close> for success) and succeeds once the script is
  used up. An accepted remote description becomes the remote description, and the current
  one when it is an answer.
\<close>

record ScriptedPC =
  spRemote :: "SessionDescription option"
  spCurrentRemote :: "SessionDescription option"
  spConnection :: PeerConnectionState
  spGathering :: ICEGatheringState
  spTransceivers :: "RTPTransceiver list"
  spScript :: "bool list"

definition nextOutcome :: "ScriptedPC \<Rightarrow> bool \<times> ScriptedPC" where
  "nextOutcome p = (case spScript p of [] \<Rightarrow> (True, p) | b # bs \<Rightarrow> (b, p\<lparr>spScript := bs\<rparr>))"

definition scriptedPC :: "ScriptedPC PeerConnection" where
  "scriptedPC =
     \<lparr> pcRemoteDescription = spRemote,
       pcCurrentRemoteDescription = spCurrentRemote,
       pcConnectionState = spConnection,
       pcICEGatheringState = spGathering,
       pcGetTransceivers = spTransceivers,
       pcSetRemoteDescription = (\<lambda>p sd.
          case nextOutcome p of
            (True, p') \<Rightarrow>
              (None, p'\<lparr>spRemote := Some sd,
                         spCurrentRemote := (if Type sd = SDPTypeAnswer then Some sd else spCurrentRemote p')\<rparr>)
          | (False, p') \<Rightarrow> (Some ''rejected'', p')),
       pcAddICECandidate = (\<lambda>p c.
          case nextOutcome p of (True, p') \<Rightarrow> (None, p') | (False, p') \<Rightarrow> (Some ''rejected'', p')),
       pcCreateOffer = (\<lambda>p options.
          case nextOutcome p of
            (True, p') \<Rightarrow> (Inr \<lparr>Type = SDPTypeOffer, SDP = ''offer''\<rparr>, p')
          | (False, p') \<Rightarrow> (Inl ''rejected'', p')),
       pcSetLocalDescription = (\<lambda>p sd.
          case nextOutcome p of (True, p') \<Rightarrow> (None, p') | (False, p') \<Rightarrow> (Some ''rejected'', p')) \<rparr>"

definition newScriptedPC :: "bool list \<Rightarrow> ScriptedPC" where
  "newScriptedPC script =
     \<lparr> spRemote = None, spCurrentRemote = None, spConnection = PeerConnectionStateNew,
       spGathering = ICEGatheringStateNew, spTransceivers = [], spScript = script \<rparr>"

definition gatheringPC :: ScriptedPC where
  "gatheringPC = (newScriptedPC [])\<lparr>spGathering := ICEGatheringStateGathering\<rparr>"

definition closedPC :: ScriptedPC where
  "closedPC = (newScriptedPC [])\<lparr>spConnection := PeerConnectionStateClosed\<rparr>"

definition gatheringDone :: "ScriptedPC PCTransport \<Rightarrow> ScriptedPC PCTransport" where
  \<comment> \<open>The peer connection finishes gathering.\<close>
  "gatheringDone t = t\<lparr>pc := (pc t)\<lparr>spGathering := ICEGatheringStateComplete\<rparr>\<rparr>"

definition cand :: "string \<Rightarrow> ICECandidateInit" where
  "cand s = \<lparr>Candidate = s, SDPMid = None, SDPMLineIndex = None, UsernameFragment = None\<rparr>"

definition scriptedOffer :: SessionDescription where
  "scriptedOffer = \<lparr>Type = SDPTypeOffer, SDP = ''offer''\<rparr>"

definition clientAnswer :: SessionDescription where
  "clientAnswer = \<lparr>Type = SDPTypeAnswer, SDP = ''answer''\<rparr>"

definition answeredPC :: ScriptedPC where
  \<comment> \<open>A peer connection that holds a current remote description.\<close>
  "answeredPC = (newScriptedPC [])\<lparr>spRemote := Some clientAnswer, spCurrentRemote := Some clientAnswer\<rparr>"

definition remoteOffer :: SessionDescription where
  "remoteOffer = \<lparr>Type = SDPTypeOffer, SDP = ''remote''\<rparr>"

definition brokenOffer :: SessionDescription where
  "brokenOffer = \<lparr>Type = SDPTypeOffer, SDP = ''''\<rparr>"

definition restartOptions :: "OfferOptions option" where
  "restartOptions = Some \<lparr>ICERestart = True\<rparr>"

text \<open>
  Transports on a scripted peer connection: with a handler registered; after a first
  offer; after a second request made before the answer; the same once the handler has been
  taken away again by \<open>OnOffer(nil)\<close>; and after an ICE restart that was requested
  while gathering, once gathering is over.
\<close>

definition offerer :: "ScriptedPC \<Rightarrow> ScriptedPC PCTransport" where
  "offerer p = OnOffer True (NewPCTransport p)"

definition awaitingClient :: "ScriptedPC \<Rightarrow> ScriptedPC PCTransport" where
  "awaitingClient p = fst (snd (createAndSendOffer scriptedPC None (offerer p)))"

definition retryPending :: "ScriptedPC \<Rightarrow> ScriptedPC PCTransport" where
  "retryPending p = fst (snd (createAndSendOffer scriptedPC None (awaitingClient p)))"

definition handlerRemoved :: "ScriptedPC PCTransport" where
  "handlerRemoved = OnOffer False (retryPending (newScriptedPC []))"

definition deferredRestart :: "ScriptedPC PCTransport" where
  "deferredRestart = gatheringDone (fst (snd (createAndSendOffer scriptedPC restartOptions (offerer gatheringPC))))"

text \<open>
  A sequence of submissions: three candidates, and between them a remote description that
  the peer connection refuses when the script starts with a refusal.
\<close>

definition submissions :: "transportOp list" where
  "submissions =
     [OpAddICECandidate (cand ''c1''), OpSetRemoteDescription brokenOffer,
      OpAddICECandidate (cand ''c2''), OpAddICECandidate (cand ''c3'')]"

definition afterSubmissions :: "bool list \<Rightarrow> ScriptedPC PCTransport" where
  "afterSubmissions script =
     fst (snd (applyOps scriptedPC submissions (NewPCTransport (newScriptedPC script))))"

text \<open>
  Two candidates, then the same remote description twice, on a peer connection that
  refuses the third call it receives.
\<close>

definition retriedDrain :: "error option list \<times> ScriptedPC PCTransport \<times> pcCall list" where
  "retriedDrain =
     applyOps scriptedPC
       [OpAddICECandidate (cand ''c1''), OpAddICECandidate (cand ''c2''),
        OpSetRemoteDescription remoteOffer, OpSetRemoteDescription remoteOffer]
       (NewPCTransport (newScriptedPC [True, True, False]))"

text \<open>
  A peer connection with six transceivers and the codecs recorded for five of them.
\<close>

definition codecVP8 :: RTPCodecCapability where
  "codecVP8 = \<lparr>MimeType = ''video/VP8'', ClockRate = 90000, Channels = 0, SDPFmtpLine = ''''\<rparr>"

definition codecH264 :: RTPCodecCapability where
  "codecH264 = \<lparr>MimeType = ''video/H264'', ClockRate = 90000, Channels = 0, SDPFmtpLine = ''''\<rparr>"

definition codecOpus :: RTPCodecCapability where
  "codecOpus = \<lparr>MimeType = ''audio/opus'', ClockRate = 48000, Channels = 2, SDPFmtpLine = ''''\<rparr>"

definition videoTrack :: TrackLocal where
  "videoTrack = \<lparr>TrackID = ''camera'', TrackKind = RTPCodecTypeVideo\<rparr>"

definition freeSender :: RTPSender where
  "freeSender = \<lparr>Track = None, Codecs = []\<rparr>"

definition exampleTransceivers :: "RTPTransceiver list" where
  "exampleTransceivers =
     [\<lparr>Mid = ''0'', Kind = RTPCodecTypeAudio, Sender = Some freeSender\<rparr>,
      \<lparr>Mid = ''1'', Kind = RTPCodecTypeVideo, Sender = Some \<lparr>Track = Some videoTrack, Codecs = []\<rparr>\<rparr>,
      \<lparr>Mid = ''2'', Kind = RTPCodecTypeVideo, Sender = None\<rparr>,
      \<lparr>Mid = ''3'', Kind = RTPCodecTypeVideo, Sender = Some freeSender\<rparr>,
      \<lparr>Mid = ''4'', Kind = RTPCodecTypeVideo, Sender = Some freeSender\<rparr>,
      \<lparr>Mid = ''5'', Kind = RTPCodecTypeVideo, Sender = Some freeSender\<rparr>]"

definition sendingTransport :: "ScriptedPC PCTransport" where
  "sendingTransport =
     (NewPCTransport ((newScriptedPC [])\<lparr>spTransceivers := exampleTransceivers\<rparr>))
       \<lparr>transceiverCodecs :=
          [''0'' \<mapsto> [codecOpus], ''1'' \<mapsto> [codecVP8], ''3'' \<mapsto> [codecH264],
           ''4'' \<mapsto> [codecH264, codecVP8], ''5'' \<mapsto> [codecVP8]]\<rparr>"

section \<open>Properties of the stream tracker manager\<close>

subsection \<open>The range statements as list functions\<close>

lemma containsLayer_iff: "containsLayer ls layer \<longleftrightarrow> layer \<in> set ls"
  by (induction ls) auto

lemma withoutLayer_filter: "withoutLayer ls layer = filter (\<lambda>l. l \<noteq> layer) ls"
  by (induction ls) auto

lemma strict_sorted_sortSlice:
  "distinct xs \<Longrightarrow> sorted_wrt (<) (sortSlice xs)"
  by (simp add: sortSlice_def strict_sorted_iff)

lemma set_sortSlice: "set (sortSlice xs) = set xs"
  by (simp add: sortSlice_def)

lemma add_sorted:
  "sorted_wrt (<) (availableLayers s) \<Longrightarrow> sorted_wrt (<) (availableLayers (fst (addAvailableLayer layer s)))"
  by (auto simp: addAvailableLayer_def containsLayer_iff Let_def strict_sorted_iff sortSlice_def)

lemma add_set:
  "set (availableLayers (fst (addAvailableLayer layer s))) = insert layer (set (availableLayers s))"
  by (auto simp: addAvailableLayer_def containsLayer_iff Let_def set_sortSlice)

lemma remove_sorted:
  "sorted_wrt (<) (availableLayers s) \<Longrightarrow> sorted_wrt (<) (availableLayers (fst (removeAvailableLayer layer s)))"
  by (auto simp: removeAvailableLayer_def withoutLayer_filter Let_def strict_sorted_iff sortSlice_def)

lemma remove_set:
  "set (availableLayers (fst (removeAvailableLayer layer s))) = set (availableLayers s) - {layer}"
  by (auto simp: removeAvailableLayer_def withoutLayer_filter Let_def set_sortSlice)

lemma notify_sorted:
  "sorted_wrt (<) (availableLayers s) \<Longrightarrow> sorted_wrt (<) (availableLayers (fst (onStatusChanged layer status s)))"
  by (simp add: onStatusChanged_def add_sorted remove_sorted)

lemma notify_set:
  "set (availableLayers (fst (onStatusChanged layer status s))) =
     (if status = StreamStatusStopped then set (availableLayers s) - {layer}
      else insert layer (set (availableLayers s)))"
  by (simp add: onStatusChanged_def add_set remove_set)

lemma notify_max: "maxExpectedLayer (fst (onStatusChanged layer status s)) = maxExpectedLayer s"
  by (simp add: onStatusChanged_def addAvailableLayer_def removeAvailableLayer_def Let_def)

lemma fst_notifyAll_Cons:
  "fst (notifyAll ((layer, status) # ns) s) = fst (notifyAll ns (fst (onStatusChanged layer status s)))"
  by (simp split: prod.splits)

lemma notifyAll_sorted:
  "sorted_wrt (<) (availableLayers s) \<Longrightarrow> sorted_wrt (<) (availableLayers (fst (notifyAll ns s)))"
proof (induction ns arbitrary: s)
  case Nil
  then show ?case by simp
next
  case (Cons n ns)
  obtain layer status where n: "n = (layer, status)" by (cases n)
  from Cons.prems have "sorted_wrt (<) (availableLayers (fst (onStatusChanged layer status s)))"
    by (rule notify_sorted)
  from Cons.IH [OF this] show ?case
    by (simp only: n fst_notifyAll_Cons)
qed

lemma notifyAll_max: "maxExpectedLayer (fst (notifyAll ns s)) = maxExpectedLayer s"
proof (induction ns arbitrary: s)
  case Nil
  then show ?case by simp
next
  case (Cons n ns)
  obtain layer status where n: "n = (layer, status)" by (cases n)
  have "maxExpectedLayer (fst (notifyAll ns (fst (onStatusChanged layer status s)))) = maxExpectedLayer s"
    by (simp add: Cons.IH notify_max)
  then show ?case
    by (simp only: n fst_notifyAll_Cons)
qed

lemma layersAfter_Nil: "layersAfter [] ls = set ls"
  by (simp add: layersAfter_def)

lemma layersAfter_Cons:
  "layersAfter ((layer, status) # ns) ls =
     layersAfter ns (if status = StreamStatusStopped then filter (\<lambda>l. l \<noteq> layer) ls else layer # ls)"
  by (auto simp: layersAfter_def split: option.splits)

lemma layersAfter_cong: "set ls = set ls' \<Longrightarrow> layersAfter ns ls = layersAfter ns ls'"
  by (auto simp: layersAfter_def split: option.splits)

lemma notifyAll_set:
  "set (availableLayers (fst (notifyAll ns s))) = layersAfter ns (availableLayers s)"
proof (induction ns arbitrary: s)
  case Nil
  then show ?case by (simp add: layersAfter_Nil)
next
  case (Cons n ns)
  obtain layer status where n: "n = (layer, status)" by (cases n)
  let ?s' = "fst (onStatusChanged layer status s)"
  have "set (availableLayers (fst (notifyAll ns ?s'))) = layersAfter ns (availableLayers ?s')"
    by (rule Cons.IH)
  also have "\<dots> = layersAfter ns (if status = StreamStatusStopped then filter (\<lambda>l. l \<noteq> layer) (availableLayers s) else layer # availableLayers s)"
    by (rule layersAfter_cong) (simp add: notify_set set_diff_eq)
  also have "\<dots> = layersAfter (n # ns) (availableLayers s)"
    by (simp only: n layersAfter_Cons)
  finally show ?case
    by (simp only: n fst_notifyAll_Cons)
qed

subsection \<open>Raising and lowering the expected layer\<close>

lemma int32_id: "- 2147483648 \<le> x \<Longrightarrow> x < 2147483648 \<Longrightarrow> int32 x = x"
  by (simp add: int32_def)

lemma collect_step:
  assumes "l \<le> layer" "isSlot s l"
  shows "collectTrackersToReset s l layer acc =
           collectTrackersToReset s (int32 (l + 1)) layer (acc @ resetsOfLayer s l)"
proof (cases "l \<in> set (availableLayers s)")
  case True
  with assms show ?thesis
    by (subst collectTrackersToReset.simps)
      (simp add: hasSpatialLayerLocked_def containsLayer_iff resetsOfLayer_def)
next
  case False
  with assms have "\<not> (l < 0 \<or> int (length (trackers s)) \<le> l)" by (auto simp: isSlot_def)
  with False assms show ?thesis
    by (subst collectTrackersToReset.simps)
      (simp add: hasSpatialLayerLocked_def containsLayer_iff resetsOfLayer_def split: option.splits)
qed

lemma collect_panic_here:
  assumes "l \<le> layer" "\<not> isSlot s l"
  shows "collectTrackersToReset s l layer acc = Some (Inl (IndexOutOfRange l (length (trackers s))))"
  using assms
  by (subst collectTrackersToReset.simps)
    (auto simp: hasSpatialLayerLocked_def containsLayer_iff isSlot_def)

lemma collect_done:
  "layer < l \<Longrightarrow> collectTrackersToReset s l layer acc = Some (Inr acc)"
  by (subst collectTrackersToReset.simps) simp

text \<open>
  Below the largest \<open>int32\<close> the counter does not wrap, and the loop ends: with every layer
  passed, it returns the trackers collected.
\<close>

lemma collect_closed_form:
  assumes "list_all (isSlot s) [l .. layer]" "- 2147483648 \<le> l" "layer < 2147483647"
  shows "collectTrackersToReset s l layer acc =
           Some (Inr (acc @ concat (map (resetsOfLayer s) [l .. layer])))"
  using assms
proof (induction "nat (layer + 1 - l)" arbitrary: l acc)
  case 0
  then have "layer < l" by simp
  then show ?case by (simp add: collect_done)
next
  case (Suc n)
  then have le: "l \<le> layer" by simp
  then have up: "[l .. layer] = l # [l + 1 .. layer]" by (simp add: upto_rec1)
  from Suc.prems up have here: "isSlot s l" and rest: "list_all (isSlot s) [l + 1 .. layer]"
    by simp_all
  from le Suc.prems have wrap: "int32 (l + 1) = l + 1" by (intro int32_id) simp_all
  from Suc.hyps(2) have n: "n = nat (layer + 1 - (l + 1))" by simp
  from Suc.prems have lo: "- 2147483648 \<le> l + 1" by simp
  from Suc.hyps(1) [OF n rest lo Suc.prems(3)] collect_step [OF le here] wrap up
  show ?case by simp
qed

text \<open>The loop panics at the first layer that it cannot pass.\<close>

lemma collect_panics:
  assumes "l \<le> k" "k \<le> layer" "\<not> isSlot s k" "list_all (isSlot s) [l .. k - 1]"
    "- 2147483648 \<le> l" "layer \<le> 2147483647"
  shows "collectTrackersToReset s l layer acc = Some (Inl (IndexOutOfRange k (length (trackers s))))"
  using assms
proof (induction "nat (k - l)" arbitrary: l acc)
  case 0
  then have "l = k" by simp
  with "0.prems" collect_panic_here [of k layer s acc] show ?case by simp
next
  case (Suc n)
  then have lt: "l < k" and le: "l \<le> layer" by simp_all
  then have up: "[l .. k - 1] = l # [l + 1 .. k - 1]" by (simp add: upto_rec1)
  from Suc.prems(4) up have here: "isSlot s l" and rest: "list_all (isSlot s) [l + 1 .. k - 1]"
    by simp_all
  from lt Suc.prems have wrap: "int32 (l + 1) = l + 1" by (intro int32_id) simp_all
  from Suc.hyps(2) lt have n: "n = nat (k - (l + 1))" by simp
  from lt have a: "l + 1 \<le> k" by simp
  from Suc.prems have lo: "- 2147483648 \<le> l + 1" by simp
  from Suc.hyps(1) [OF n a Suc.prems(2,3) rest lo Suc.prems(6)] collect_step [OF le here] wrap
  show ?case by simp
qed

lemma SetMax_lower:
  "layer \<le> maxExpectedLayer s \<Longrightarrow>
   SetMaxExpectedSpatialLayer layer s = Some (Inr (s\<lparr>maxExpectedLayer := layer\<rparr>, []))"
  by (simp add: SetMaxExpectedSpatialLayer_def)

lemma SetMax_raise:
  assumes "maxExpectedLayer s < layer" "slotsInRange s layer"
    "- 2147483648 \<le> maxExpectedLayer s" "layer < 2147483647"
  shows "SetMaxExpectedSpatialLayer layer s =
           Some (Inr (s\<lparr>maxExpectedLayer := layer\<rparr>, expectedResets s layer))"
proof -
  from assms have wrap: "int32 (maxExpectedLayer s + 1) = maxExpectedLayer s + 1"
    by (intro int32_id) simp_all
  from assms have "collectTrackersToReset s (maxExpectedLayer s + 1) layer [] =
      Some (Inr ([] @ concat (map (resetsOfLayer s) [maxExpectedLayer s + 1 .. layer])))"
    by (intro collect_closed_form) (simp_all add: slotsInRange_def)
  with assms(1) wrap show ?thesis
    by (simp add: SetMaxExpectedSpatialLayer_def expectedResets_def)
qed

lemma SetMax_panics:
  assumes "maxExpectedLayer s < k" "k \<le> layer" "\<not> isSlot s k"
    "list_all (isSlot s) [maxExpectedLayer s + 1 .. k - 1]"
    "- 2147483648 \<le> maxExpectedLayer s" "layer \<le> 2147483647"
  shows "SetMaxExpectedSpatialLayer layer s =
           Some (Inl (IndexOutOfRange k (length (trackers s))))"
proof -
  from assms have wrap: "int32 (maxExpectedLayer s + 1) = maxExpectedLayer s + 1"
    by (intro int32_id) simp_all
  from assms(1) have a: "maxExpectedLayer s + 1 \<le> k" by simp
  from assms(5) have lo: "- 2147483648 \<le> maxExpectedLayer s + 1" by simp
  from collect_panics [OF a assms(2,3,4) lo assms(6), of "[]"] assms(1,2) wrap
  show ?thesis by (simp add: SetMaxExpectedSpatialLayer_def)
qed

subsection \<open>The invariant of the manager and reduced quality\<close>

lemma IsReducedQuality_exact:
  assumes "length (availableLayers s) < 2147483648"
    and "- 2147483648 \<le> maxExpectedLayer s" and "maxExpectedLayer s < 2147483647"
  shows "IsReducedQuality s \<longleftrightarrow> int (length (availableLayers s)) < maxExpectedLayer s + 1"
proof -
  from assms(1) have "int32 (int (length (availableLayers s))) = int (length (availableLayers s))"
    by (intro int32_id) simp_all
  moreover from assms(2,3) have "int32 (maxExpectedLayer s + 1) = maxExpectedLayer s + 1"
    by (intro int32_id) simp_all
  ultimately show ?thesis by (simp add: IsReducedQuality_def)
qed

lemma length_le_slots:
  assumes "distinct ls" and "list_all (\<lambda>l. 0 \<le> l \<and> l \<le> m) ls"
  shows "int (length ls) \<le> max 0 (m + 1)"
proof -
  from assms(2) have "set ls \<subseteq> {0 .. m}" by (auto simp: list_all_iff)
  then have "card (set ls) \<le> card {0 .. m}" by (intro card_mono) simp_all
  with assms(1) show ?thesis by (simp add: distinct_card)
qed

lemma managerInv_reduced:
  assumes "managerInv s"
  shows "IsReducedQuality s \<longleftrightarrow> int (length (availableLayers s)) < maxExpectedLayer s + 1"
proof -
  from assms have d: "distinct (availableLayers s)"
    and r: "list_all (\<lambda>l. 0 \<le> l \<and> l \<le> DefaultMaxLayerSpatial) (availableLayers s)"
    and lo: "- 2147483648 \<le> maxExpectedLayer s" and hi: "maxExpectedLayer s \<le> DefaultMaxLayerSpatial"
    by (simp_all add: managerInv_def strict_sorted_iff)
  from length_le_slots [OF d r] have "length (availableLayers s) \<le> 3"
    by (simp add: DefaultMaxLayerSpatial_def)
  then have "length (availableLayers s) < 2147483648" by simp
  moreover from hi have "maxExpectedLayer s < 2147483647" by (simp add: DefaultMaxLayerSpatial_def)
  ultimately show ?thesis using lo by (intro IsReducedQuality_exact)
qed

lemma managerInv_New: "managerInv NewStreamTrackerManager"
  by (simp add: managerInv_def NewStreamTrackerManager_def DefaultMaxLayerSpatial_def)

lemma notify_trackers: "trackers (fst (onStatusChanged layer status s)) = trackers s"
  by (simp add: onStatusChanged_def addAvailableLayer_def removeAvailableLayer_def Let_def)

lemma managerInv_notify:
  assumes "managerInv s" and "0 \<le> layer \<and> layer \<le> DefaultMaxLayerSpatial"
  shows "managerInv (fst (onStatusChanged layer status s))"
proof -
  let ?s' = "fst (onStatusChanged layer status s)"
  from assms(1) have "sorted_wrt (<) (availableLayers ?s')"
    by (intro notify_sorted) (simp add: managerInv_def)
  moreover have "list_all (\<lambda>l. 0 \<le> l \<and> l \<le> DefaultMaxLayerSpatial) (availableLayers ?s')"
    using assms by (auto simp: list_all_iff notify_set managerInv_def)
  ultimately show ?thesis
    using assms(1) by (simp add: managerInv_def notify_trackers notify_max)
qed

lemma managerInv_notifyAll:
  "managerInv s \<Longrightarrow> list_all (\<lambda>n. 0 \<le> fst n \<and> fst n \<le> DefaultMaxLayerSpatial) ns \<Longrightarrow>
   managerInv (fst (notifyAll ns s))"
proof (induction ns arbitrary: s)
  case Nil
  then show ?case by simp
next
  case (Cons n ns)
  obtain layer status where n: "n = (layer, status)" by (cases n)
  from Cons.prems n have "managerInv (fst (onStatusChanged layer status s))"
    by (intro managerInv_notify) simp_all
  moreover from Cons.prems have "list_all (\<lambda>n. 0 \<le> fst n \<and> fst n \<le> DefaultMaxLayerSpatial) ns" by simp
  ultimately have "managerInv (fst (notifyAll ns (fst (onStatusChanged layer status s))))"
    by (rule Cons.IH)
  then show ?case by (simp only: n fst_notifyAll_Cons)
qed

lemma managerInv_AddTracker:
  "managerInv s \<Longrightarrow> AddTracker layer tracker s = Inr s' \<Longrightarrow> managerInv s'"
  by (auto simp: AddTracker_def managerInv_def split: if_splits)

lemma managerInv_RemoveTracker:
  "managerInv s \<Longrightarrow> RemoveTracker layer s = Inr (s', stopped) \<Longrightarrow> managerInv s'"
  by (auto simp: RemoveTracker_def managerInv_def split: if_splits)

text \<open>
  In a manager that satisfies the invariant the layers that the loop can pass are the
  indices of the array, so the range above the old bound is passed exactly when the old
  bound is at least \<open>-1\<close> and the new one is at most the highest slot.
\<close>

lemma managerInv_isSlot:
  "managerInv s \<Longrightarrow> isSlot s l \<longleftrightarrow> 0 \<le> l \<and> l \<le> DefaultMaxLayerSpatial"
  by (auto simp: managerInv_def isSlot_def list_all_iff)

lemma managerInv_slotsInRange:
  assumes "managerInv s" "maxExpectedLayer s < layer"
  shows "slotsInRange s layer \<longleftrightarrow> - 1 \<le> maxExpectedLayer s \<and> layer \<le> DefaultMaxLayerSpatial"
proof
  assume r: "slotsInRange s layer"
  from assms(2) have "maxExpectedLayer s + 1 \<in> set [maxExpectedLayer s + 1 .. layer]"
    "layer \<in> set [maxExpectedLayer s + 1 .. layer]" by simp_all
  with r have "isSlot s (maxExpectedLayer s + 1)" "isSlot s layer"
    by (auto simp: slotsInRange_def list_all_iff)
  with assms(1) show "- 1 \<le> maxExpectedLayer s \<and> layer \<le> DefaultMaxLayerSpatial"
    by (simp add: managerInv_isSlot)
next
  assume "- 1 \<le> maxExpectedLayer s \<and> layer \<le> DefaultMaxLayerSpatial"
  with assms(1) show "slotsInRange s layer"
    by (auto simp: slotsInRange_def list_all_iff managerInv_isSlot)
qed

lemma managerInv_SetMax_panics:
  assumes inv: "managerInv s" and raise: "maxExpectedLayer s < layer"
    and out: "maxExpectedLayer s < - 1 \<or> DefaultMaxLayerSpatial < layer"
    and hi: "layer \<le> 2147483647"
  shows "SetMaxExpectedSpatialLayer layer s =
           Some (Inl (IndexOutOfRange
             (if maxExpectedLayer s < - 1 then maxExpectedLayer s + 1 else DefaultMaxLayerSpatial + 1)
             (length (trackers s))))"
proof -
  from inv have int32: "- 2147483648 \<le> maxExpectedLayer s"
    and top: "maxExpectedLayer s \<le> DefaultMaxLayerSpatial" by (simp_all add: managerInv_def)
  show ?thesis
  proof (cases "maxExpectedLayer s < - 1")
    case True
    let ?k = "maxExpectedLayer s + 1"
    from True inv have "\<not> isSlot s ?k" by (simp add: managerInv_isSlot)
    moreover have "list_all (isSlot s) [maxExpectedLayer s + 1 .. ?k - 1]" by simp
    moreover have "maxExpectedLayer s < ?k" by simp
    moreover from raise have "?k \<le> layer" by simp
    ultimately have "SetMaxExpectedSpatialLayer layer s =
        Some (Inl (IndexOutOfRange ?k (length (trackers s))))"
      using int32 hi by (intro SetMax_panics)
    with True show ?thesis by simp
  next
    case False
    let ?k = "DefaultMaxLayerSpatial + 1"
    from False out have big: "DefaultMaxLayerSpatial < layer" by simp
    from inv have "\<not> isSlot s ?k" by (simp add: managerInv_isSlot)
    moreover from False inv have "list_all (isSlot s) [maxExpectedLayer s + 1 .. ?k - 1]"
      by (auto simp: list_all_iff managerInv_isSlot)
    moreover from top have "maxExpectedLayer s < ?k" by simp
    moreover from big have "?k \<le> layer" by simp
    ultimately have "SetMaxExpectedSpatialLayer layer s =
        Some (Inl (IndexOutOfRange ?k (length (trackers s))))"
      using int32 hi by (intro SetMax_panics)
    with False show ?thesis by simp
  qed
qed

lemma managerInv_SetMax:
  assumes inv: "managerInv s" and lo: "- 2147483648 \<le> layer" and hi: "layer \<le> 2147483647"
    and ok: "SetMaxExpectedSpatialLayer layer s = Some (Inr (s', resets))"
  shows "managerInv s'"
proof (cases "layer \<le> maxExpectedLayer s")
  case True
  with ok have "s' = s\<lparr>maxExpectedLayer := layer\<rparr>" by (simp add: SetMax_lower)
  with inv lo True show ?thesis by (simp add: managerInv_def)
next
  case False
  then have raise: "maxExpectedLayer s < layer" by simp
  from inv have int32: "- 2147483648 \<le> maxExpectedLayer s" by (simp add: managerInv_def)
  have rng: "slotsInRange s layer"
  proof (rule ccontr)
    assume "\<not> slotsInRange s layer"
    with inv raise have "maxExpectedLayer s < - 1 \<or> DefaultMaxLayerSpatial < layer"
      by (auto simp: managerInv_slotsInRange)
    from managerInv_SetMax_panics [OF inv raise this hi] ok show False by (auto split: if_splits)
  qed
  with inv raise have top: "layer \<le> DefaultMaxLayerSpatial" by (simp add: managerInv_slotsInRange)
  then have "layer < 2147483647" by (simp add: DefaultMaxLayerSpatial_def)
  from SetMax_raise [OF raise rng int32 this] ok have "s' = s\<lparr>maxExpectedLayer := layer\<rparr>" by simp
  with inv lo top show ?thesis by (simp add: managerInv_def)
qed

lemma expectedResets_member:
  "tracker \<in> set (expectedResets s layer) \<longleftrightarrow>
     (\<exists>l. maxExpectedLayer s < l \<and> l \<le> layer \<and> l \<notin> set (availableLayers s) \<and>
          trackers s ! nat l = Some tracker)"
proof
  assume "tracker \<in> set (expectedResets s layer)"
  then obtain l where "l \<in> set [maxExpectedLayer s + 1 .. layer]"
    and "tracker \<in> set (resetsOfLayer s l)"
    by (auto simp: expectedResets_def)
  then have "maxExpectedLayer s < l \<and> l \<le> layer \<and> l \<notin> set (availableLayers s) \<and>
      trackers s ! nat l = Some tracker"
    by (auto simp: resetsOfLayer_def split: if_splits option.splits)
  then show "\<exists>l. maxExpectedLayer s < l \<and> l \<le> layer \<and> l \<notin> set (availableLayers s) \<and>
      trackers s ! nat l = Some tracker" ..
next
  assume "\<exists>l. maxExpectedLayer s < l \<and> l \<le> layer \<and> l \<notin> set (availableLayers s) \<and>
      trackers s ! nat l = Some tracker"
  then obtain l where l: "maxExpectedLayer s < l" "l \<le> layer" "l \<notin> set (availableLayers s)"
      "trackers s ! nat l = Some tracker"
    by blast
  then have "l \<in> set [maxExpectedLayer s + 1 .. layer]" by simp
  moreover from l have "tracker \<in> set (resetsOfLayer s l)" by (simp add: resetsOfLayer_def)
  ultimately show "tracker \<in> set (expectedResets s layer)"
    unfolding expectedResets_def set_concat set_map by blast
qed

subsection \<open>The claims about the manager\<close>

text \<open>
  Claim C6, as amended. For a manager as the operations build it and an \<open>int32\<close> argument,
  \<open>SetMaxExpectedSpatialLayer(layer)\<close> does the following. When \<open>layer\<close> does not exceed the
  current bound, the call only stores the new bound and resets no tracker. When \<open>layer\<close> is
  higher, the old bound is at least \<open>-1\<close> and \<open>layer\<close> is at most the highest slot, the
  trackers that are reset are those of exactly the layers above the old bound and up to
  \<open>layer\<close> that are not available and whose slot is occupied, in ascending order; layers
  that are available and empty slots are not touched, the bound is stored, and
  \<open>availableLayers\<close> is unchanged. When \<open>layer\<close> is higher and lies above the highest slot,
  or the old bound is below \<open>-1\<close>, the call panics on the first index outside the tracker
  array and nothing is stored.
\<close>

theorem SetMaxExpectedSpatialLayer_resets:
  assumes "managerInv s" and "layer \<le> 2147483647"
  shows "(layer \<le> maxExpectedLayer s \<longrightarrow>
            SetMaxExpectedSpatialLayer layer s = Some (Inr (s\<lparr>maxExpectedLayer := layer\<rparr>, []))) \<and>
         (maxExpectedLayer s < layer \<and> - 1 \<le> maxExpectedLayer s \<and> layer \<le> DefaultMaxLayerSpatial \<longrightarrow>
            SetMaxExpectedSpatialLayer layer s =
              Some (Inr (s\<lparr>maxExpectedLayer := layer\<rparr>, expectedResets s layer))) \<and>
         (maxExpectedLayer s < layer \<and> (maxExpectedLayer s < - 1 \<or> DefaultMaxLayerSpatial < layer) \<longrightarrow>
            SetMaxExpectedSpatialLayer layer s =
              Some (Inl (IndexOutOfRange
                (if maxExpectedLayer s < - 1 then maxExpectedLayer s + 1 else DefaultMaxLayerSpatial + 1)
                (length (trackers s)))))"
proof -
  from assms(1) have int32: "- 2147483648 \<le> maxExpectedLayer s" by (simp add: managerInv_def)
  have "SetMaxExpectedSpatialLayer layer s =
          Some (Inr (s\<lparr>maxExpectedLayer := layer\<rparr>, expectedResets s layer))"
    if "maxExpectedLayer s < layer" "- 1 \<le> maxExpectedLayer s" "layer \<le> DefaultMaxLayerSpatial"
  proof -
    from that assms(1) have "slotsInRange s layer" by (simp add: managerInv_slotsInRange)
    moreover from that have "layer < 2147483647" by (simp add: DefaultMaxLayerSpatial_def)
    ultimately show ?thesis using that(1) int32 by (intro SetMax_raise)
  qed
  moreover have "SetMaxExpectedSpatialLayer layer s =
          Some (Inl (IndexOutOfRange
            (if maxExpectedLayer s < - 1 then maxExpectedLayer s + 1 else DefaultMaxLayerSpatial + 1)
            (length (trackers s))))"
    if "maxExpectedLayer s < layer" "maxExpectedLayer s < - 1 \<or> DefaultMaxLayerSpatial < layer"
    using assms(1) that assms(2) by (rule managerInv_SetMax_panics)
  ultimately show ?thesis by (simp add: SetMax_lower)
qed

text \<open>
  The theorem on the scenario of the specification: layer 0 available, layer 1 stopped,
  layer 2 absent, and the bound raised from 0 to 2. Tracker 1 is reset, nothing else is,
  the available layers stay \<open>[0]\<close>, and the quality is reduced. Lowering to 0 resets
  nothing, and raising to 3 leaves the array.
\<close>

theorem SetMaxExpectedSpatialLayer_resets_witness:
  "managerInv scenarioS3 \<and>
   maxExpectedLayer scenarioS3 < 2 \<and> - 1 \<le> maxExpectedLayer scenarioS3 \<and>
   2 \<le> DefaultMaxLayerSpatial \<and>
   SetMaxExpectedSpatialLayer 2 scenarioS3 =
     Some (Inr (scenarioS3\<lparr>maxExpectedLayer := 2\<rparr>, [11])) \<and>
   availableLayers (scenarioS3\<lparr>maxExpectedLayer := 2\<rparr>) = [0] \<and>
   IsReducedQuality (scenarioS3\<lparr>maxExpectedLayer := 2\<rparr>) \<and>
   (0::int) \<le> maxExpectedLayer scenarioS3 \<and>
   SetMaxExpectedSpatialLayer 0 scenarioS3 =
     Some (Inr (scenarioS3\<lparr>maxExpectedLayer := 0\<rparr>, [])) \<and>
   maxExpectedLayer scenarioS3 < 3 \<and> DefaultMaxLayerSpatial < 3 \<and>
   SetMaxExpectedSpatialLayer 3 scenarioS3 = Some (Inl (IndexOutOfRange 3 3))"
proof -
  have up: "[1 .. 2] = [1, 2::int]" by (simp add: upto_rec1)
  have inv: "managerInv scenarioS3"
    by (simp add: managerInv_def scenarioS3_def DefaultMaxLayerSpatial_def)
  have a: "maxExpectedLayer scenarioS3 < 2" "- 1 \<le> maxExpectedLayer scenarioS3"
    "(0::int) \<le> maxExpectedLayer scenarioS3" "maxExpectedLayer scenarioS3 < 3"
    "2 \<le> DefaultMaxLayerSpatial" "DefaultMaxLayerSpatial < 3"
    by (simp_all add: scenarioS3_def DefaultMaxLayerSpatial_def)
  have c: "expectedResets scenarioS3 2 = [11]"
    by (simp add: expectedResets_def resetsOfLayer_def scenarioS3_def up)
  have d: "IsReducedQuality (scenarioS3\<lparr>maxExpectedLayer := 2\<rparr>)"
    by (simp add: IsReducedQuality_def scenarioS3_def int32_def)
  have e: "availableLayers (scenarioS3\<lparr>maxExpectedLayer := 2\<rparr>) = [0]"
    by (simp add: scenarioS3_def)
  have f: "length (trackers scenarioS3) = 3" "DefaultMaxLayerSpatial + 1 = 3"
    by (simp_all add: scenarioS3_def DefaultMaxLayerSpatial_def)
  from SetMaxExpectedSpatialLayer_resets [OF inv, of 2] SetMaxExpectedSpatialLayer_resets [OF inv, of 0]
    SetMaxExpectedSpatialLayer_resets [OF inv, of 3] inv a c d e f
  show ?thesis by simp
qed

text \<open>
  Without the condition on the range the statement fails: on a new manager, whose bound is
  the highest slot 2, raising the bound to 3 reads slot 3 of an array of length 3.
\<close>

theorem SetMaxExpectedSpatialLayer_out_of_range:
  "SetMaxExpectedSpatialLayer 3 NewStreamTrackerManager = Some (Inl (IndexOutOfRange 3 3))"
  by (simp add: SetMaxExpectedSpatialLayer_def NewStreamTrackerManager_def DefaultMaxLayerSpatial_def
      collectTrackersToReset.simps hasSpatialLayerLocked_def int32_def)

text \<open>
  Claim C7. After any sequence of status notifications for installed layers (each one runs
  \<open>addAvailableLayer\<close> or \<open>removeAvailableLayer\<close>), the list of available layers is
  strictly ascending, has no duplicates, and holds exactly the layers whose most recent
  notification was not \<open>Stopped\<close>; and \<open>IsReducedQuality\<close> is true exactly when the number
  of available layers is below \<open>maxExpectedLayer + 1\<close>.
\<close>

theorem availableLayers_track_notifications:
  assumes "managerInv s"
    and "list_all (\<lambda>n. 0 \<le> fst n \<and> fst n \<le> DefaultMaxLayerSpatial) ns"
  shows "sorted_wrt (<) (GetAvailableLayers (fst (notifyAll ns s))) \<and>
         distinct (GetAvailableLayers (fst (notifyAll ns s))) \<and>
         set (GetAvailableLayers (fst (notifyAll ns s))) = layersAfter ns (availableLayers s) \<and>
         (IsReducedQuality (fst (notifyAll ns s)) \<longleftrightarrow>
            int (length (GetAvailableLayers (fst (notifyAll ns s)))) <
              maxExpectedLayer (fst (notifyAll ns s)) + 1)"
proof -
  let ?s' = "fst (notifyAll ns s)"
  from assms(1) have "sorted_wrt (<) (availableLayers s)" by (simp add: managerInv_def)
  then have sorted: "sorted_wrt (<) (availableLayers ?s')" by (rule notifyAll_sorted)
  then have "distinct (availableLayers ?s')" by (simp add: strict_sorted_iff)
  moreover from assms have "managerInv ?s'" by (rule managerInv_notifyAll)
  then have "IsReducedQuality ?s' \<longleftrightarrow> int (length (availableLayers ?s')) < maxExpectedLayer ?s' + 1"
    by (rule managerInv_reduced)
  ultimately show ?thesis using sorted by (simp add: GetAvailableLayers_def notifyAll_set)
qed

lemma example_run:
  "GetAvailableLayers (fst (notifyAll exampleNotifications NewStreamTrackerManager)) = [0, 2]"
  "maxExpectedLayer (fst (notifyAll exampleNotifications NewStreamTrackerManager)) = 2"
  by (simp_all add: exampleNotifications_def NewStreamTrackerManager_def onStatusChanged_def
      addAvailableLayer_def removeAvailableLayer_def sortSlice_def GetAvailableLayers_def
      DefaultMaxLayerSpatial_def Let_def)

text \<open>
  The theorem on a new manager and seven notifications: layers 0 and 2 end up available,
  layer 1 does not, and with three layers expected the quality is reduced.
\<close>

theorem availableLayers_track_notifications_witness:
  "managerInv NewStreamTrackerManager \<and>
   list_all (\<lambda>n. 0 \<le> fst n \<and> fst n \<le> DefaultMaxLayerSpatial) exampleNotifications \<and>
   GetAvailableLayers (fst (notifyAll exampleNotifications NewStreamTrackerManager)) = [0, 2] \<and>
   layersAfter exampleNotifications (availableLayers NewStreamTrackerManager) = {0, 2} \<and>
   IsReducedQuality (fst (notifyAll exampleNotifications NewStreamTrackerManager))"
proof -
  have ns: "list_all (\<lambda>n. 0 \<le> fst n \<and> fst n \<le> DefaultMaxLayerSpatial) exampleNotifications"
    by (simp add: exampleNotifications_def DefaultMaxLayerSpatial_def)
  from availableLayers_track_notifications [OF managerInv_New ns] example_run managerInv_New ns
  show ?thesis by simp
qed

text \<open>
  Claim C10. With a callback registered, \<open>removeAvailableLayer\<close> invokes it exactly once
  with the new list, whatever the list held before: when the layer was not available (and
  the list is sorted, as it always is) the manager is unchanged and the callback receives
  the unchanged list again. \<open>addAvailableLayer\<close> for a layer that is already available
  changes nothing and does not invoke the callback.
\<close>

theorem stopped_always_notifies:
  assumes "onAvailableLayersChanged s"
  shows "snd (removeAvailableLayer layer s) = [GetAvailableLayers (fst (removeAvailableLayer layer s))] \<and>
         (layer \<notin> set (availableLayers s) \<and> sorted_wrt (<) (availableLayers s) \<longrightarrow>
            removeAvailableLayer layer s = (s, [availableLayers s])) \<and>
         (layer \<in> set (availableLayers s) \<longrightarrow> addAvailableLayer layer s = (s, []))"
proof -
  have "layer \<notin> set (availableLayers s) \<Longrightarrow> withoutLayer (availableLayers s) layer = availableLayers s"
    by (auto simp: withoutLayer_filter filter_id_conv)
  moreover have "sorted_wrt (<) (availableLayers s) \<Longrightarrow> sortSlice (availableLayers s) = availableLayers s"
    by (simp add: sortSlice_def strict_sorted_iff sorted_sort_id)
  ultimately show ?thesis using assms
    by (auto simp: removeAvailableLayer_def addAvailableLayer_def GetAvailableLayers_def Let_def
        containsLayer_iff)
qed

text \<open>
  The theorem on the manager of the scenario above: stopping layer 1, which is not
  available, delivers \<open>[0]\<close> again; adding layer 0, which is available, delivers nothing.
\<close>

theorem stopped_always_notifies_witness:
  "onAvailableLayersChanged scenarioS3 \<and> 1 \<notin> set (availableLayers scenarioS3) \<and>
   sorted_wrt (<) (availableLayers scenarioS3) \<and>
   removeAvailableLayer 1 scenarioS3 = (scenarioS3, [[0]]) \<and>
   0 \<in> set (availableLayers scenarioS3) \<and>
   addAvailableLayer 0 scenarioS3 = (scenarioS3, []) \<and>
   snd (removeAvailableLayer 0 scenarioS3) = [[]]"
proof -
  have a: "onAvailableLayersChanged scenarioS3" "1 \<notin> set (availableLayers scenarioS3)"
    "sorted_wrt (<) (availableLayers scenarioS3)" "0 \<in> set (availableLayers scenarioS3)"
    "availableLayers scenarioS3 = [0]"
    by (simp_all add: scenarioS3_def)
  have b: "GetAvailableLayers (fst (removeAvailableLayer 0 scenarioS3)) = []"
    by (simp add: removeAvailableLayer_def scenarioS3_def sortSlice_def GetAvailableLayers_def)
  from stopped_always_notifies [OF a(1), of 1] stopped_always_notifies [OF a(1), of 0] a b
  show ?thesis by simp
qed

section \<open>Properties of the transport\<close>

subsection \<open>The paths through the offer\<close>

lemma createOfferAndSend_cases:
  obtains (offer_failed) err p1 where
      "pcCreateOffer eng (pc t) options = (Inl err, p1)"
      "createOfferAndSend eng options t = (Some err, t\<lparr>pc := p1\<rparr>, [CallCreateOffer options (Inl err)])"
  | (sld_failed) offer p1 err p2 where
      "pcCreateOffer eng (pc t) options = (Inr offer, p1)"
      "pcSetLocalDescription eng p1 offer = (Some err, p2)"
      "createOfferAndSend eng options t =
         (Some err, t\<lparr>pc := p2\<rparr>,
          [CallCreateOffer options (Inr offer), CallSetLocalDescription offer (Some err)])"
  | (sent) offer p1 p2 where
      "pcCreateOffer eng (pc t) options = (Inr offer, p1)"
      "pcSetLocalDescription eng p1 offer = (None, p2)"
      "createOfferAndSend eng options t =
         (None,
          t\<lparr>pc := p2, negotiationState := negotiationStateClient, restartAfterGathering := False,
            transceiverCodecs := recordTransceiverCodecs (pcGetTransceivers eng p2) (transceiverCodecs t)\<rparr>,
          [CallCreateOffer options (Inr offer), CallSetLocalDescription offer None, CallOnOffer offer])"
proof (cases "pcCreateOffer eng (pc t) options")
  case (Pair r p1)
  show ?thesis
  proof (cases r)
    case (Inl err)
    with Pair show ?thesis by (intro offer_failed [of err p1]) (simp_all add: createOfferAndSend_def)
  next
    case (Inr offer)
    show ?thesis
    proof (cases "pcSetLocalDescription eng p1 offer")
      case sld: (Pair r2 p2)
      show ?thesis
      proof (cases r2)
        case None
        with Pair Inr sld show ?thesis
          by (intro sent [of offer p1 p2]) (simp_all add: createOfferAndSend_def)
      next
        case (Some err)
        with Pair Inr sld show ?thesis
          by (intro sld_failed [of offer p1 err p2]) (simp_all add: createOfferAndSend_def)
      qed
    qed
  qed
qed

lemma createOfferAndSend_failure:
  assumes "createOfferAndSend eng options t = (res, t', calls)"
    and "CallCreateOffer opts (Inl err) \<in> set calls \<or> CallSetLocalDescription offer (Some err) \<in> set calls"
  shows "res = Some err \<and> negotiationState t' = negotiationState t \<and>
         restartAfterGathering t' = restartAfterGathering t \<and>
         transceiverCodecs t' = transceiverCodecs t \<and> (\<forall>sd. CallOnOffer sd \<notin> set calls)"
  by (rule createOfferAndSend_cases [where eng = eng and options = options and t = t])
    (use assms in auto)

lemma createOfferAndSend_sent:
  assumes "createOfferAndSend eng options t = (res, t', calls)"
    and "CallOnOffer offer \<in> set calls"
  shows "res = None \<and> negotiationState t' = negotiationStateClient \<and> \<not> restartAfterGathering t' \<and>
         calls = [CallCreateOffer options (Inr offer), CallSetLocalDescription offer None, CallOnOffer offer]"
  by (rule createOfferAndSend_cases [where eng = eng and options = options and t = t])
    (use assms in auto)

lemma createOfferAndSend_no_add:
  assumes "createOfferAndSend eng options t = (res, t', calls)"
  shows "CallAddICECandidate c r \<notin> set calls"
  by (rule createOfferAndSend_cases [where eng = eng and options = options and t = t])
    (use assms in auto)

lemma createOfferAndSend_frame:
  assumes "createOfferAndSend eng options t = (res, t', calls)"
  shows "pendingCandidates t' = pendingCandidates t \<and> onOffer t' = onOffer t"
  by (rule createOfferAndSend_cases [where eng = eng and options = options and t = t])
    (use assms in auto)

lemma cso_no_handler: "\<not> onOffer t \<Longrightarrow> createAndSendOffer eng options t = (None, t, [])"
  by (simp add: createAndSendOffer_def)

lemma cso_deferred:
  "onOffer t \<Longrightarrow> pcConnectionState eng (pc t) \<noteq> PeerConnectionStateClosed \<Longrightarrow>
   iceRestartRequested options \<Longrightarrow> pcICEGatheringState eng (pc t) = ICEGatheringStateGathering \<Longrightarrow>
   createAndSendOffer eng options t = (None, t\<lparr>restartAfterGathering := True\<rparr>, [])"
  by (simp add: createAndSendOffer_def)

lemma cso_guards_fail:
  "\<not> offerGuardsPass eng options t \<Longrightarrow>
   createAndSendOffer eng options t =
     (None, if onOffer t \<and> pcConnectionState eng (pc t) \<noteq> PeerConnectionStateClosed
            then t\<lparr>restartAfterGathering := True\<rparr> else t, [])"
  by (auto simp: createAndSendOffer_def offerGuardsPass_def)

lemma cso_retry:
  "offerGuardsPass eng options t \<Longrightarrow> negotiationState t = negotiationRetry \<Longrightarrow>
   createAndSendOffer eng options t = (None, t, [])"
  by (auto simp: createAndSendOffer_def offerGuardsPass_def Let_def)

lemma cso_idle:
  "offerGuardsPass eng options t \<Longrightarrow> negotiationState t = negotiationStateNone \<Longrightarrow>
   createAndSendOffer eng options t = createOfferAndSend eng options t"
  by (auto simp: createAndSendOffer_def offerGuardsPass_def Let_def)

lemma cso_client_postponed:
  "offerGuardsPass eng options t \<Longrightarrow> negotiationState t = negotiationStateClient \<Longrightarrow>
   \<not> (iceRestartRequested options \<and> pcCurrentRemoteDescription eng (pc t) \<noteq> None) \<Longrightarrow>
   createAndSendOffer eng options t = (None, t\<lparr>negotiationState := negotiationRetry\<rparr>, [])"
  by (auto simp: createAndSendOffer_def offerGuardsPass_def Let_def split: option.splits)

lemma cso_client_override_failed:
  "offerGuardsPass eng options t \<Longrightarrow> negotiationState t = negotiationStateClient \<Longrightarrow>
   iceRestartRequested options \<Longrightarrow> pcCurrentRemoteDescription eng (pc t) = Some currentSD \<Longrightarrow>
   pcSetRemoteDescription eng (pc t) currentSD = (Some err, p') \<Longrightarrow>
   createAndSendOffer eng options t =
     (Some err, t\<lparr>pc := p'\<rparr>, [CallSetRemoteDescription currentSD (Some err)])"
  by (auto simp: createAndSendOffer_def offerGuardsPass_def Let_def)

lemma cso_client_override:
  "offerGuardsPass eng options t \<Longrightarrow> negotiationState t = negotiationStateClient \<Longrightarrow>
   iceRestartRequested options \<Longrightarrow> pcCurrentRemoteDescription eng (pc t) = Some currentSD \<Longrightarrow>
   pcSetRemoteDescription eng (pc t) currentSD = (None, p') \<Longrightarrow>
   createAndSendOffer eng options t =
     (case createOfferAndSend eng options (t\<lparr>pc := p'\<rparr>) of
        (res, t', calls) \<Rightarrow> (res, t', CallSetRemoteDescription currentSD None # calls))"
  by (auto simp: createAndSendOffer_def offerGuardsPass_def Let_def)

lemma cso_cases:
  assumes "createAndSendOffer eng options t = (res, t', calls)"
  obtains (skipped) "res = None" "calls = []" "negotiationState t' = negotiationState t \<or>
            (negotiationState t = negotiationStateClient \<and> t' = t\<lparr>negotiationState := negotiationRetry\<rparr>)"
            "restartAfterGathering t \<longrightarrow> restartAfterGathering t'"
  | (override_failed) currentSD err p' where "res = Some err"
      "calls = [CallSetRemoteDescription currentSD (Some err)]" "t' = t\<lparr>pc := p'\<rparr>"
  | (offered) t1 calls0 where "createOfferAndSend eng options t1 = (res, t', calls0)"
      "negotiationState t1 = negotiationState t" "restartAfterGathering t1 = restartAfterGathering t"
      "calls = calls0 \<or> (\<exists>currentSD. calls = CallSetRemoteDescription currentSD None # calls0)"
proof (cases "offerGuardsPass eng options t")
  case False
  from cso_guards_fail [OF False] assms show ?thesis
    by (intro skipped) (auto split: if_splits)
next
  case True
  show ?thesis
  proof (cases "negotiationState t")
    case negotiationStateNone
    from cso_idle [OF True negotiationStateNone] assms show ?thesis
      by (intro offered [of t calls]) simp_all
  next
    case negotiationRetry
    from cso_retry [OF True negotiationRetry] assms show ?thesis
      by (intro skipped) auto
  next
    case negotiationStateClient
    show ?thesis
    proof (cases "iceRestartRequested options \<and> pcCurrentRemoteDescription eng (pc t) \<noteq> None")
      case False
      from cso_client_postponed [OF True negotiationStateClient False] assms negotiationStateClient
      show ?thesis by (intro skipped) auto
    next
      case ov: True
      then obtain currentSD where cur: "pcCurrentRemoteDescription eng (pc t) = Some currentSD"
        and ice: "iceRestartRequested options" by auto
      obtain r p' where srd: "pcSetRemoteDescription eng (pc t) currentSD = (r, p')"
        by (cases "pcSetRemoteDescription eng (pc t) currentSD")
      show ?thesis
      proof (cases r)
        case (Some err)
        from cso_client_override_failed [OF True negotiationStateClient ice cur srd [unfolded Some]] assms
        show ?thesis by (intro override_failed [of err currentSD p']) auto
      next
        case None
        obtain res0 t0 calls0 where co: "createOfferAndSend eng options (t\<lparr>pc := p'\<rparr>) = (res0, t0, calls0)"
          by (cases "createOfferAndSend eng options (t\<lparr>pc := p'\<rparr>)")
        from cso_client_override [OF True negotiationStateClient ice cur srd [unfolded None]] assms co
        show ?thesis by (intro offered [of "t\<lparr>pc := p'\<rparr>" calls0]) auto
      qed
    qed
  qed
qed

lemma cso_sent:
  assumes run: "createAndSendOffer eng options t = (res, t', calls)"
    and sent: "CallOnOffer offer \<in> set calls"
  shows "res = None \<and> negotiationState t' = negotiationStateClient \<and> \<not> restartAfterGathering t'"
using run proof (cases rule: cso_cases)
  case skipped
  with sent show ?thesis by simp
next
  case (override_failed currentSD err' p')
  with sent show ?thesis by simp
next
  case (offered t1 calls0)
  from offered(4) sent have "CallOnOffer offer \<in> set calls0" by auto
  from createOfferAndSend_sent [OF offered(1) this] show ?thesis by simp
qed

lemma cso_no_add:
  assumes run: "createAndSendOffer eng options t = (res, t', calls)"
  shows "CallAddICECandidate c r \<notin> set calls"
using run proof (cases rule: cso_cases)
  case skipped
  then show ?thesis by simp
next
  case (override_failed currentSD err' p')
  then show ?thesis by simp
next
  case (offered t1 calls0)
  from createOfferAndSend_no_add [OF offered(1)] offered(4) show ?thesis by auto
qed

lemma cso_frame:
  assumes run: "createAndSendOffer eng options t = (res, t', calls)"
  shows "pendingCandidates t' = pendingCandidates t \<and> onOffer t' = onOffer t"
proof (cases "offerGuardsPass eng options t")
  case False
  from cso_guards_fail [OF False] run show ?thesis by (auto split: if_splits)
next
  case True
  show ?thesis
  proof (cases "negotiationState t")
    case negotiationStateNone
    from cso_idle [OF True negotiationStateNone] run createOfferAndSend_frame [of eng options t res t' calls]
    show ?thesis by simp
  next
    case negotiationRetry
    from cso_retry [OF True negotiationRetry] run show ?thesis by auto
  next
    case negotiationStateClient
    show ?thesis
    proof (cases "iceRestartRequested options \<and> pcCurrentRemoteDescription eng (pc t) \<noteq> None")
      case False
      from cso_client_postponed [OF True negotiationStateClient False] run show ?thesis by auto
    next
      case ov: True
      then obtain currentSD where cur: "pcCurrentRemoteDescription eng (pc t) = Some currentSD"
        and ice: "iceRestartRequested options" by auto
      obtain r p' where srd: "pcSetRemoteDescription eng (pc t) currentSD = (r, p')"
        by (cases "pcSetRemoteDescription eng (pc t) currentSD")
      show ?thesis
      proof (cases r)
        case (Some err)
        from cso_client_override_failed [OF True negotiationStateClient ice cur srd [unfolded Some]] run
        show ?thesis by auto
      next
        case None
        obtain res0 t0 calls0 where co: "createOfferAndSend eng options (t\<lparr>pc := p'\<rparr>) = (res0, t0, calls0)"
          by (cases "createOfferAndSend eng options (t\<lparr>pc := p'\<rparr>)")
        from cso_client_override [OF True negotiationStateClient ice cur srd [unfolded None]] run co
          createOfferAndSend_frame [OF co]
        show ?thesis by auto
      qed
    qed
  qed
qed

lemma cso_nil_options_idle:
  assumes idle: "negotiationState t = negotiationStateNone"
    and run: "createAndSendOffer eng None t = (res, t', calls)"
  shows "(onOffer t \<and> pcConnectionState eng (pc t) \<noteq> PeerConnectionStateClosed \<longrightarrow>
            (\<exists>err. fst (pcCreateOffer eng (pc t) None) = Inl err \<and>
                   calls = [CallCreateOffer None (Inl err)] \<and>
                   negotiationState t' = negotiationStateNone) \<or>
            (\<exists>offer err.
                   fst (pcCreateOffer eng (pc t) None) = Inr offer \<and>
                   fst (pcSetLocalDescription eng (snd (pcCreateOffer eng (pc t) None)) offer) = Some err \<and>
                   calls = [CallCreateOffer None (Inr offer), CallSetLocalDescription offer (Some err)] \<and>
                   negotiationState t' = negotiationStateNone) \<or>
            (\<exists>offer.
                   fst (pcCreateOffer eng (pc t) None) = Inr offer \<and>
                   fst (pcSetLocalDescription eng (snd (pcCreateOffer eng (pc t) None)) offer) = None \<and>
                   calls = [CallCreateOffer None (Inr offer), CallSetLocalDescription offer None,
                            CallOnOffer offer] \<and>
                   negotiationState t' = negotiationStateClient)) \<and>
         (\<not> onOffer t \<or> pcConnectionState eng (pc t) = PeerConnectionStateClosed \<longrightarrow>
            calls = [] \<and> negotiationState t' = negotiationStateNone)"
proof (cases "onOffer t \<and> pcConnectionState eng (pc t) \<noteq> PeerConnectionStateClosed")
  case False
  then have "createAndSendOffer eng None t = (None, t, [])"
    by (auto simp: createAndSendOffer_def)
  with run idle False show ?thesis by auto
next
  case True
  then have "offerGuardsPass eng None t"
    by (simp add: offerGuardsPass_def iceRestartRequested_def)
  from cso_idle [OF this idle] run have co: "createOfferAndSend eng None t = (res, t', calls)" by simp
  show ?thesis
  proof (rule createOfferAndSend_cases [where eng = eng and options = None and t = t])
    fix err p1
    assume "pcCreateOffer eng (pc t) None = (Inl err, p1)"
      "createOfferAndSend eng None t = (Some err, t\<lparr>pc := p1\<rparr>, [CallCreateOffer None (Inl err)])"
    with co idle True show ?thesis by auto
  next
    fix offer p1 err p2
    assume "pcCreateOffer eng (pc t) None = (Inr offer, p1)"
      "pcSetLocalDescription eng p1 offer = (Some err, p2)"
      "createOfferAndSend eng None t =
         (Some err, t\<lparr>pc := p2\<rparr>,
          [CallCreateOffer None (Inr offer), CallSetLocalDescription offer (Some err)])"
    with co idle True show ?thesis by auto
  next
    fix offer p1 p2
    assume "pcCreateOffer eng (pc t) None = (Inr offer, p1)"
      "pcSetLocalDescription eng p1 offer = (None, p2)"
      "createOfferAndSend eng None t =
         (None,
          t\<lparr>pc := p2, negotiationState := negotiationStateClient, restartAfterGathering := False,
            transceiverCodecs := recordTransceiverCodecs (pcGetTransceivers eng p2) (transceiverCodecs t)\<rparr>,
          [CallCreateOffer None (Inr offer), CallSetLocalDescription offer None, CallOnOffer offer])"
    with co idle True show ?thesis by auto
  qed
qed

subsection \<open>Draining the pending candidates\<close>

lemma drain_ok:
  "drainPendingCandidates eng cs p = (None, p', calls) \<Longrightarrow> calls = map applied cs"
proof (induction cs arbitrary: p p' calls)
  case Nil
  then show ?case by simp
next
  case (Cons c cs)
  obtain r p1 where a: "pcAddICECandidate eng p c = (r, p1)" by (cases "pcAddICECandidate eng p c")
  obtain r2 p2 calls2 where d: "drainPendingCandidates eng cs p1 = (r2, p2, calls2)"
    by (cases "drainPendingCandidates eng cs p1")
  from Cons.prems a d have "r = None" "r2 = None" "calls = applied c # calls2"
    by (auto split: option.splits)
  with Cons.IH [of p1 p2 calls2] d show ?case by simp
qed

lemma drain_stops_at_failure:
  "drainPendingCandidates eng cs p = (Some err, p', calls) \<Longrightarrow>
   \<exists>k<length cs. calls = map applied (take k cs) @ [CallAddICECandidate (cs ! k) (Some err)]"
proof (induction cs arbitrary: p p' calls)
  case Nil
  then show ?case by simp
next
  case (Cons c cs)
  obtain r p1 where a: "pcAddICECandidate eng p c = (r, p1)" by (cases "pcAddICECandidate eng p c")
  show ?case
  proof (cases r)
    case (Some e)
    with Cons.prems a have "calls = [CallAddICECandidate c (Some err)]" by auto
    then have "calls = map applied (take 0 (c # cs)) @ [CallAddICECandidate ((c # cs) ! 0) (Some err)]"
      by simp
    then show ?thesis by blast
  next
    case None
    obtain r2 p2 calls2 where d: "drainPendingCandidates eng cs p1 = (r2, p2, calls2)"
      by (cases "drainPendingCandidates eng cs p1")
    from Cons.prems a None d have r2: "r2 = Some err" and c: "calls = applied c # calls2" by auto
    from Cons.IH [of p1 p2 calls2] d r2 obtain k where k: "k < length cs"
      "calls2 = map applied (take k cs) @ [CallAddICECandidate (cs ! k) (Some err)]" by auto
    then have "Suc k < length (c # cs)"
      "calls = map applied (take (Suc k) (c # cs)) @ [CallAddICECandidate ((c # cs) ! Suc k) (Some err)]"
      using c by simp_all
    then show ?thesis by blast
  qed
qed

lemma drain_no_offer:
  "drainPendingCandidates eng cs p = (res, p', calls) \<Longrightarrow> \<not> list_ex isOfferCall calls"
proof (cases res)
  case None
  assume "drainPendingCandidates eng cs p = (res, p', calls)"
  with None have "calls = map applied cs" by (simp add: drain_ok)
  then show ?thesis by (simp add: list_ex_iff)
next
  case (Some err)
  assume "drainPendingCandidates eng cs p = (res, p', calls)"
  with Some obtain k where "calls = map applied (take k cs) @ [CallAddICECandidate (cs ! k) (Some err)]"
    using drain_stops_at_failure [of eng cs p err p' calls] by auto
  then show ?thesis by (simp add: list_ex_iff)
qed

lemma srd_cases:
  obtains (rejected) err p1 where
      "pcSetRemoteDescription eng (pc t) sd = (Some err, p1)"
      "SetRemoteDescription eng sd t = (Some err, t\<lparr>pc := p1\<rparr>, [CallSetRemoteDescription sd (Some err)])"
  | (drain_aborted) p1 err p2 dcalls where
      "pcSetRemoteDescription eng (pc t) sd = (None, p1)"
      "drainPendingCandidates eng (pendingCandidates t) p1 = (Some err, p2, dcalls)"
      "SetRemoteDescription eng sd t =
         (Some err, t\<lparr>negotiationState := negotiationStateNone, pc := p2\<rparr>,
          CallSetRemoteDescription sd None # dcalls)"
  | (renegotiate) p1 p2 dcalls res t3 calls' where
      "pcSetRemoteDescription eng (pc t) sd = (None, p1)"
      "drainPendingCandidates eng (pendingCandidates t) p1 = (None, p2, dcalls)"
      "negotiationState t = negotiationRetry" "Type sd = SDPTypeAnswer"
      "createAndSendOffer eng None
         (t\<lparr>negotiationState := negotiationStateNone, pc := p2, pendingCandidates := []\<rparr>) =
         (res, t3, calls')"
      "SetRemoteDescription eng sd t = (None, t3, CallSetRemoteDescription sd None # dcalls @ calls')"
  | (settled) p1 p2 dcalls where
      "pcSetRemoteDescription eng (pc t) sd = (None, p1)"
      "drainPendingCandidates eng (pendingCandidates t) p1 = (None, p2, dcalls)"
      "\<not> (negotiationState t = negotiationRetry \<and> Type sd = SDPTypeAnswer)"
      "SetRemoteDescription eng sd t =
         (None, t\<lparr>negotiationState := negotiationStateNone, pc := p2, pendingCandidates := []\<rparr>,
          CallSetRemoteDescription sd None # dcalls)"
proof -
  obtain r p1 where srd: "pcSetRemoteDescription eng (pc t) sd = (r, p1)"
    by (cases "pcSetRemoteDescription eng (pc t) sd")
  show ?thesis
  proof (cases r)
    case (Some err)
    with srd show ?thesis by (intro rejected [of err p1]) (simp_all add: SetRemoteDescription_def)
  next
    case None
    obtain r2 p2 dcalls where dr: "drainPendingCandidates eng (pendingCandidates t) p1 = (r2, p2, dcalls)"
      by (cases "drainPendingCandidates eng (pendingCandidates t) p1")
    show ?thesis
    proof (cases r2)
      case (Some err)
      with srd None dr show ?thesis
        by (intro drain_aborted [of p1 err p2 dcalls]) (simp_all add: SetRemoteDescription_def Let_def)
    next
      case none2: None
      show ?thesis
      proof (cases "negotiationState t = negotiationRetry \<and> Type sd = SDPTypeAnswer")
        case False
        with srd None dr none2 show ?thesis
          by (intro settled [of p1 p2 dcalls]) (auto simp: SetRemoteDescription_def Let_def)
      next
        case True
        obtain res t3 calls' where co: "createAndSendOffer eng None
           (t\<lparr>negotiationState := negotiationStateNone, pc := p2, pendingCandidates := []\<rparr>) = (res, t3, calls')"
          by (cases "createAndSendOffer eng None
           (t\<lparr>negotiationState := negotiationStateNone, pc := p2, pendingCandidates := []\<rparr>)")
        with srd None dr none2 True show ?thesis
          by (intro renegotiate [of p1 p2 dcalls res t3 calls']) (auto simp: SetRemoteDescription_def Let_def)
      qed
    qed
  qed
qed

lemma srd_no_follow_up:
  assumes run: "SetRemoteDescription eng sd t = (res, t', calls)"
  shows "(res = None \<and> \<not> (negotiationState t = negotiationRetry \<and> Type sd = SDPTypeAnswer) \<longrightarrow>
            negotiationState t' = negotiationStateNone \<and>
            calls = CallSetRemoteDescription sd None # map applied (pendingCandidates t)) \<and>
         (res \<noteq> None \<or> \<not> (negotiationState t = negotiationRetry \<and> Type sd = SDPTypeAnswer) \<longrightarrow>
            \<not> list_ex isOfferCall calls)"
proof (cases eng t sd rule: srd_cases)
  case (rejected err p1)
  with run show ?thesis by auto
next
  case (drain_aborted p1 err p2 dcalls)
  from drain_no_offer [OF drain_aborted(2)] drain_aborted(3) run show ?thesis by auto
next
  case (settled p1 p2 dcalls)
  from drain_ok [OF settled(2)] drain_no_offer [OF settled(2)] settled(3,4) run show ?thesis by auto
next
  case (renegotiate p1 p2 dcalls res3 t3 calls')
  with run show ?thesis by simp
qed

lemma srd_renegotiates:
  assumes run: "SetRemoteDescription eng sd t = (None, t', calls)"
    and retry: "negotiationState t = negotiationRetry" and answer: "Type sd = SDPTypeAnswer"
  shows "\<exists>p1 p2 res' calls'.
           pcSetRemoteDescription eng (pc t) sd = (None, p1) \<and>
           drainPendingCandidates eng (pendingCandidates t) p1 =
             (None, p2, map applied (pendingCandidates t)) \<and>
           createAndSendOffer eng None
             (t\<lparr>negotiationState := negotiationStateNone, pc := p2, pendingCandidates := []\<rparr>) =
             (res', t', calls') \<and>
           calls = CallSetRemoteDescription sd None # map applied (pendingCandidates t) @ calls'"
proof (cases eng t sd rule: srd_cases)
  case (rejected err p1)
  with run show ?thesis by simp
next
  case (drain_aborted p1 err p2 dcalls)
  with run show ?thesis by simp
next
  case (settled p1 p2 dcalls)
  with retry answer show ?thesis by simp
next
  case (renegotiate p1 p2 dcalls res3 t3 calls')
  from drain_ok [OF renegotiate(2)] have d: "dcalls = map applied (pendingCandidates t)" .
  from renegotiate(6) run have "t3 = t'" "calls = CallSetRemoteDescription sd None # dcalls @ calls'"
    by simp_all
  with renegotiate(1,2,5) d show ?thesis by auto
qed

subsection \<open>Sequences of calls\<close>

lemma AddICECandidate_buffers:
  "pcRemoteDescription eng (pc t) = None \<Longrightarrow>
   AddICECandidate eng c t = (None, t\<lparr>pendingCandidates := pendingCandidates t @ [c]\<rparr>, [])"
  by (simp add: AddICECandidate_def)

lemma AddICECandidate_quiet:
  assumes "AddICECandidate eng c t = (res, t', calls)" "list_all isRefusedDescription calls"
  shows "res = None \<and> t' = t\<lparr>pendingCandidates := pendingCandidates t @ [c]\<rparr> \<and> calls = []"
  using assms by (auto simp: AddICECandidate_def split: if_splits prod.splits)

lemma SetRemoteDescription_quiet:
  assumes "SetRemoteDescription eng sd t = (res, t', calls)" "list_all isRefusedDescription calls"
  shows "res \<noteq> None \<and> pendingCandidates t' = pendingCandidates t"
  by (rule srd_cases [where eng = eng and t = t and sd = sd]) (use assms in auto)

lemma quiet_prefix:
  "applyOps eng ops t = (ress, t', calls) \<Longrightarrow> list_all isRefusedDescription calls \<Longrightarrow>
   pendingCandidates t' = pendingCandidates t @ submitted ops"
proof (induction ops arbitrary: t t' ress calls)
  case Nil
  then show ?case by simp
next
  case (Cons op ops)
  show ?case
  proof (cases op)
    case (OpAddICECandidate c)
    obtain res t1 calls1 where a: "AddICECandidate eng c t = (res, t1, calls1)"
      by (cases "AddICECandidate eng c t")
    obtain ress2 t2 calls2 where r: "applyOps eng ops t1 = (ress2, t2, calls2)"
      by (cases "applyOps eng ops t1")
    from Cons.prems OpAddICECandidate a r have t': "t' = t2" and calls: "calls = calls1 @ calls2"
      by simp_all
    with Cons.prems(2) have q1: "list_all isRefusedDescription calls1"
      and q2: "list_all isRefusedDescription calls2" by simp_all
    from AddICECandidate_quiet [OF a q1] have "pendingCandidates t1 = pendingCandidates t @ [c]" by simp
    with Cons.IH [OF r q2] t' OpAddICECandidate show ?thesis by simp
  next
    case (OpSetRemoteDescription sd)
    obtain res t1 calls1 where a: "SetRemoteDescription eng sd t = (res, t1, calls1)"
      by (cases "SetRemoteDescription eng sd t")
    obtain ress2 t2 calls2 where r: "applyOps eng ops t1 = (ress2, t2, calls2)"
      by (cases "applyOps eng ops t1")
    from Cons.prems OpSetRemoteDescription a r have t': "t' = t2" and calls: "calls = calls1 @ calls2"
      by simp_all
    with Cons.prems(2) have q1: "list_all isRefusedDescription calls1"
      and q2: "list_all isRefusedDescription calls2" by simp_all
    from SetRemoteDescription_quiet [OF a q1] have "pendingCandidates t1 = pendingCandidates t" by simp
    with Cons.IH [OF r q2] t' OpSetRemoteDescription show ?thesis by simp
  qed
qed

lemma drained:
  assumes last: "SetRemoteDescription eng sd t = (res, t', calls)"
  shows "(res = None \<longrightarrow>
            pendingCandidates t' = [] \<and>
            (\<exists>calls'. calls = CallSetRemoteDescription sd None # map applied (pendingCandidates t) @ calls' \<and>
                       (\<forall>c r. CallAddICECandidate c r \<notin> set calls'))) \<and>
         (\<forall>err. res = Some err \<longrightarrow>
            calls = [CallSetRemoteDescription sd (Some err)] \<or>
            (\<exists>k<length (pendingCandidates t).
                calls = CallSetRemoteDescription sd None # map applied (take k (pendingCandidates t)) @
                        [CallAddICECandidate (pendingCandidates t ! k) (Some err)]))"
proof (cases eng t sd rule: srd_cases)
  case (rejected err p1)
  with last show ?thesis by auto
next
  case (drain_aborted p1 err p2 dcalls)
  from drain_stops_at_failure [OF drain_aborted(2)] obtain k where "k < length (pendingCandidates t)"
    "dcalls = map applied (take k (pendingCandidates t)) @ [CallAddICECandidate (pendingCandidates t ! k) (Some err)]"
    by auto
  with drain_aborted(3) last show ?thesis by auto
next
  case (settled p1 p2 dcalls)
  from drain_ok [OF settled(2)] have "dcalls = map applied (pendingCandidates t)" by simp
  with settled(4) last show ?thesis by auto
next
  case (renegotiate p1 p2 dcalls res3 t3 calls')
  from drain_ok [OF renegotiate(2)] have d: "dcalls = map applied (pendingCandidates t)" by simp
  from cso_no_add [OF renegotiate(5)] have n: "\<forall>c r. CallAddICECandidate c r \<notin> set calls'" by blast
  from cso_frame [OF renegotiate(5)] have "pendingCandidates t3 = []" by simp
  with renegotiate(6) last d n show ?thesis by auto
qed

subsection \<open>Choosing a transceiver\<close>

lemma codecMatches_iff:
  "codecMatches cs codec \<longleftrightarrow> (\<exists>params \<in> set cs. MimeType params = MimeType codec)"
  by (induction cs) auto

lemma firstTransceiverForSending_find:
  "firstTransceiverForSending trs m track codec = find (suitableForSending m track codec) trs"
  by (induction trs) (auto simp: suitableForSending_def codecMatches_iff split: option.splits)

subsection \<open>Runs on the scripted peer connection\<close>

lemmas scripted_defs = scriptedPC_def newScriptedPC_def NewPCTransport_def OnOffer_def nextOutcome_def
  gatheringPC_def closedPC_def offerer_def scriptedOffer_def clientAnswer_def restartOptions_def
  createAndSendOffer_def createOfferAndSend_def iceRestartRequested_def Let_def

lemmas more_defs = gatheringDone_def deferredRestart_def awaitingClient_def retryPending_def
  onICEGatheringStateChange_def offerGuardsPass_def

lemmas ex_defs = scripted_defs more_defs answeredPC_def

lemma submissions_run:
  "applyOps scriptedPC submissions (NewPCTransport (newScriptedPC [False])) =
     ([None, Some ''rejected'', None, None], afterSubmissions [False],
      [CallSetRemoteDescription brokenOffer (Some ''rejected'')])"
  "applyOps scriptedPC submissions (NewPCTransport (newScriptedPC [False, True, True, False])) =
     ([None, Some ''rejected'', None, None], afterSubmissions [False, True, True, False],
      [CallSetRemoteDescription brokenOffer (Some ''rejected'')])"
  by (simp_all add: afterSubmissions_def submissions_def brokenOffer_def ex_defs
      SetRemoteDescription_def AddICECandidate_def cand_def)

lemma drain_runs:
  "SetRemoteDescription scriptedPC remoteOffer (afterSubmissions [False]) =
     (None, fst (snd (SetRemoteDescription scriptedPC remoteOffer (afterSubmissions [False]))),
      [CallSetRemoteDescription remoteOffer None, CallAddICECandidate (cand ''c1'') None,
       CallAddICECandidate (cand ''c2'') None, CallAddICECandidate (cand ''c3'') None])"
  "SetRemoteDescription scriptedPC remoteOffer (afterSubmissions [False, True, True, False]) =
     (Some ''rejected'',
      fst (snd (SetRemoteDescription scriptedPC remoteOffer (afterSubmissions [False, True, True, False]))),
      [CallSetRemoteDescription remoteOffer None, CallAddICECandidate (cand ''c1'') None,
       CallAddICECandidate (cand ''c2'') (Some ''rejected'')])"
  by (simp_all add: afterSubmissions_def submissions_def brokenOffer_def remoteOffer_def ex_defs
      SetRemoteDescription_def AddICECandidate_def cand_def)

lemma renegotiation_run:
  "SetRemoteDescription scriptedPC clientAnswer (retryPending (newScriptedPC [])) =
     (None, fst (snd (SetRemoteDescription scriptedPC clientAnswer (retryPending (newScriptedPC [])))),
      [CallSetRemoteDescription clientAnswer None, CallCreateOffer None (Inr scriptedOffer),
       CallSetLocalDescription scriptedOffer None, CallOnOffer scriptedOffer])"
  by (simp add: ex_defs SetRemoteDescription_def)

lemma failed_renegotiation_run:
  "SetRemoteDescription scriptedPC clientAnswer (retryPending (newScriptedPC [True, True, True, False])) =
     (None, fst (snd (SetRemoteDescription scriptedPC clientAnswer (retryPending (newScriptedPC [True, True, True, False])))),
      [CallSetRemoteDescription clientAnswer None, CallCreateOffer None (Inl ''rejected'')])"
  by (simp add: ex_defs SetRemoteDescription_def)

lemma plain_answer_run:
  "SetRemoteDescription scriptedPC clientAnswer (awaitingClient (newScriptedPC [])) =
     (None, fst (snd (SetRemoteDescription scriptedPC clientAnswer (awaitingClient (newScriptedPC [])))),
      [CallSetRemoteDescription clientAnswer None])"
  by (simp add: ex_defs SetRemoteDescription_def)

lemma postponed_run:
  "createAndSendOffer scriptedPC None (awaitingClient (newScriptedPC [])) =
     (None, (awaitingClient (newScriptedPC []))\<lparr>negotiationState := negotiationRetry\<rparr>, [])"
  by (simp add: ex_defs)

lemma skipped_run:
  "createAndSendOffer scriptedPC None (retryPending (newScriptedPC [])) =
     (None, retryPending (newScriptedPC []), [])"
  by (simp add: ex_defs)

lemma override_run:
  "createAndSendOffer scriptedPC restartOptions (awaitingClient answeredPC) =
     (None, fst (snd (createAndSendOffer scriptedPC restartOptions (awaitingClient answeredPC))),
      [CallSetRemoteDescription clientAnswer None, CallCreateOffer restartOptions (Inr scriptedOffer),
       CallSetLocalDescription scriptedOffer None, CallOnOffer scriptedOffer])"
  by (simp add: ex_defs)

lemma deferredRestart_fires:
  "createAndSendOffer scriptedPC (Some \<lparr>ICERestart = True\<rparr>) deferredRestart =
     (None, fst (snd (createAndSendOffer scriptedPC (Some \<lparr>ICERestart = True\<rparr>) deferredRestart)),
      [CallCreateOffer (Some \<lparr>ICERestart = True\<rparr>) (Inr scriptedOffer),
       CallSetLocalDescription scriptedOffer None, CallOnOffer scriptedOffer])"
  by (simp add: scripted_defs more_defs)

lemma failing_runs:
  "createAndSendOffer scriptedPC None (offerer (newScriptedPC [False])) =
     (Some ''rejected'', offerer (newScriptedPC []), [CallCreateOffer None (Inl ''rejected'')])"
  "createAndSendOffer scriptedPC None (offerer (newScriptedPC [True, False])) =
     (Some ''rejected'', offerer (newScriptedPC []),
      [CallCreateOffer None (Inr scriptedOffer), CallSetLocalDescription scriptedOffer (Some ''rejected'')])"
  by (simp_all add: scripted_defs)

subsection \<open>The claims about the transport\<close>

text \<open>
  Claim C1, as amended. While the peer connection has no remote description,
  \<open>AddICECandidate\<close> appends the candidate to the pending queue, returns success and calls
  nothing on the peer connection. Take any sequence of \<open>AddICECandidate\<close> and
  \<open>SetRemoteDescription\<close> calls during which the peer connection accepts no description and
  sees no candidate, followed by a call of \<open>SetRemoteDescription(sd)\<close>. Before that call the
  queue holds the candidates that were pending at the start and then every candidate
  submitted, in submission order. If the call returns success, the peer connection has
  seen the description and then every one of these candidates exactly once, in that
  order, each one accepted, and no candidate anywhere else;
  the queue is empty afterwards. If the call returns an error, either the peer connection
  refused the description and no candidate was tried, or the candidates before the first
  refused one were applied in order, the refused one gave the error returned, and the
  candidates after it were not tried.
\<close>

theorem buffered_candidates_drained_in_order:
  assumes before: "applyOps eng ops t = (ress, t1, calls1)"
    and quiet: "list_all isRefusedDescription calls1"
    and last: "SetRemoteDescription eng sd t1 = (res, t', calls)"
  shows "(pcRemoteDescription eng (pc t) = None \<longrightarrow>
            AddICECandidate eng c t = (None, t\<lparr>pendingCandidates := pendingCandidates t @ [c]\<rparr>, [])) \<and>
         pendingCandidates t1 = pendingCandidates t @ submitted ops \<and>
         (res = None \<longrightarrow>
            pendingCandidates t' = [] \<and>
            (\<exists>calls'. calls = CallSetRemoteDescription sd None #
                                 map applied (pendingCandidates t @ submitted ops) @ calls' \<and>
                       (\<forall>c r. CallAddICECandidate c r \<notin> set calls'))) \<and>
         (\<forall>err. res = Some err \<longrightarrow>
            calls = [CallSetRemoteDescription sd (Some err)] \<or>
            (\<exists>k<length (pendingCandidates t @ submitted ops).
                calls = CallSetRemoteDescription sd None #
                        map applied (take k (pendingCandidates t @ submitted ops)) @
                        [CallAddICECandidate ((pendingCandidates t @ submitted ops) ! k) (Some err)]))"
proof -
  from quiet_prefix [OF before quiet]
  have q: "pendingCandidates t1 = pendingCandidates t @ submitted ops" .
  from drained [OF last] q AddICECandidate_buffers [of eng t c] show ?thesis by simp
qed

text \<open>
  The theorem on two runs from a new transport. Three candidates are submitted, with a
  refused description after the first. Then a description is accepted: in the first run
  the three candidates are applied in order; in the second the candidate \<open>c2\<close> is
  refused, and \<open>c3\<close> is not tried.
\<close>

theorem buffered_candidates_drained_in_order_witness:
  "applyOps scriptedPC submissions (NewPCTransport (newScriptedPC [False])) =
     ([None, Some ''rejected'', None, None], afterSubmissions [False],
      [CallSetRemoteDescription brokenOffer (Some ''rejected'')]) \<and>
   list_all isRefusedDescription [CallSetRemoteDescription brokenOffer (Some ''rejected'')] \<and>
   submitted submissions = [cand ''c1'', cand ''c2'', cand ''c3''] \<and>
   pendingCandidates (afterSubmissions [False]) = [cand ''c1'', cand ''c2'', cand ''c3''] \<and>
   SetRemoteDescription scriptedPC remoteOffer (afterSubmissions [False]) =
     (None, fst (snd (SetRemoteDescription scriptedPC remoteOffer (afterSubmissions [False]))),
      [CallSetRemoteDescription remoteOffer None, CallAddICECandidate (cand ''c1'') None,
       CallAddICECandidate (cand ''c2'') None, CallAddICECandidate (cand ''c3'') None]) \<and>
   pendingCandidates (fst (snd (SetRemoteDescription scriptedPC remoteOffer (afterSubmissions [False])))) = [] \<and>
   SetRemoteDescription scriptedPC remoteOffer (afterSubmissions [False, True, True, False]) =
     (Some ''rejected'',
      fst (snd (SetRemoteDescription scriptedPC remoteOffer (afterSubmissions [False, True, True, False]))),
      [CallSetRemoteDescription remoteOffer None, CallAddICECandidate (cand ''c1'') None,
       CallAddICECandidate (cand ''c2'') (Some ''rejected'')]) \<and>
   pcRemoteDescription scriptedPC (pc (NewPCTransport (newScriptedPC [False]))) = None \<and>
   AddICECandidate scriptedPC (cand ''c1'') (NewPCTransport (newScriptedPC [False])) =
     (None, (NewPCTransport (newScriptedPC [False]))\<lparr>pendingCandidates := [cand ''c1'']\<rparr>, [])"
proof -
  have q: "list_all isRefusedDescription [CallSetRemoteDescription brokenOffer (Some ''rejected'')]"
    by simp
  have s: "submitted submissions = [cand ''c1'', cand ''c2'', cand ''c3'']"
    by (simp add: submissions_def)
  have n: "pcRemoteDescription scriptedPC (pc (NewPCTransport (newScriptedPC [False]))) = None"
    "pendingCandidates (NewPCTransport (newScriptedPC [False])) = []"
    by (simp_all add: ex_defs)
  note w1 = buffered_candidates_drained_in_order [OF submissions_run(1) q drain_runs(1), of "cand ''c1''"]
  note w2 = buffered_candidates_drained_in_order [OF submissions_run(2) q drain_runs(2), of "cand ''c1''"]
  from w1 n s have a: "pendingCandidates (afterSubmissions [False]) = [cand ''c1'', cand ''c2'', cand ''c3'']"
    "pendingCandidates (fst (snd (SetRemoteDescription scriptedPC remoteOffer (afterSubmissions [False])))) = []"
    "AddICECandidate scriptedPC (cand ''c1'') (NewPCTransport (newScriptedPC [False])) =
     (None, (NewPCTransport (newScriptedPC [False]))\<lparr>pendingCandidates := [cand ''c1'']\<rparr>, [])"
    by simp_all
  from w2 a q s n submissions_run drain_runs show ?thesis by simp
qed

text \<open>
  Across calls the statement "exactly once" fails. Two candidates are buffered; the first
  \<open>SetRemoteDescription\<close> is accepted by the peer connection, applies the first candidate
  and stops at the second, which is refused, so it returns the error. The queue is kept as
  it was, and the next \<open>SetRemoteDescription\<close>, the first one to return success, applies
  the first candidate a second time.
\<close>

theorem failed_drain_applies_candidate_twice:
  "fst retriedDrain = [None, None, Some ''rejected'', None] \<and>
   snd (snd retriedDrain) =
     [CallSetRemoteDescription remoteOffer None,
      CallAddICECandidate (cand ''c1'') None, CallAddICECandidate (cand ''c2'') (Some ''rejected''),
      CallSetRemoteDescription remoteOffer None,
      CallAddICECandidate (cand ''c1'') None, CallAddICECandidate (cand ''c2'') None]"
  by (simp add: retriedDrain_def ex_defs SetRemoteDescription_def AddICECandidate_def remoteOffer_def cand_def)

text \<open>
  Claim C2, as amended. Let \<open>SetRemoteDescription\<close> return success with an answer while the
  negotiation state before the call was \<open>negotiationRetry\<close>. The peer connection has then
  accepted the description and every pending candidate, and the call has gone on to the
  offer path with the state reset to \<open>negotiationStateNone\<close>. When an offer handler is
  registered and the peer connection is not closed at that point, \<open>CreateOffer\<close> is called
  with no options, right after the candidates. If it fails, nothing more is called and the
  state ends as \<open>negotiationStateNone\<close>. If it succeeds, \<open>SetLocalDescription\<close> is called
  with the offer it returned: if that fails, nothing more is called and the state ends as
  \<open>negotiationStateNone\<close>; if it succeeds, the offer is delivered to the handler and the
  state ends as \<open>negotiationStateClient\<close>. When no handler is registered or the peer
  connection is closed, nothing is called after the candidates and the state ends as
  \<open>negotiationStateNone\<close>.
  When the state before the call was not \<open>negotiationRetry\<close> or the description is not an
  answer, the call triggers no offer: none of \<open>CreateOffer\<close>, \<open>SetLocalDescription\<close> and
  the offer handler is called, and on success the peer connection has seen the
  description and the pending candidates only and the state ends as
  \<open>negotiationStateNone\<close>. A call that returns an error triggers no offer either.
\<close>

theorem answer_in_retry_triggers_offer:
  assumes run: "SetRemoteDescription eng sd t = (res, t', calls)"
  shows "(res = None \<and> negotiationState t = negotiationRetry \<and> Type sd = SDPTypeAnswer \<longrightarrow>
            (\<exists>p1 p2 calls'.
               pcSetRemoteDescription eng (pc t) sd = (None, p1) \<and>
               drainPendingCandidates eng (pendingCandidates t) p1 =
                 (None, p2, map applied (pendingCandidates t)) \<and>
               calls = CallSetRemoteDescription sd None # map applied (pendingCandidates t) @ calls' \<and>
               (onOffer t \<and> pcConnectionState eng p2 \<noteq> PeerConnectionStateClosed \<longrightarrow>
                  (\<exists>err. fst (pcCreateOffer eng p2 None) = Inl err \<and>
                         calls' = [CallCreateOffer None (Inl err)] \<and>
                         negotiationState t' = negotiationStateNone) \<or>
                  (\<exists>offer err.
                         fst (pcCreateOffer eng p2 None) = Inr offer \<and>
                         fst (pcSetLocalDescription eng (snd (pcCreateOffer eng p2 None)) offer) = Some err \<and>
                         calls' = [CallCreateOffer None (Inr offer), CallSetLocalDescription offer (Some err)] \<and>
                         negotiationState t' = negotiationStateNone) \<or>
                  (\<exists>offer.
                         fst (pcCreateOffer eng p2 None) = Inr offer \<and>
                         fst (pcSetLocalDescription eng (snd (pcCreateOffer eng p2 None)) offer) = None \<and>
                         calls' = [CallCreateOffer None (Inr offer), CallSetLocalDescription offer None,
                                   CallOnOffer offer] \<and>
                         negotiationState t' = negotiationStateClient)) \<and>
               (\<not> onOffer t \<or> pcConnectionState eng p2 = PeerConnectionStateClosed \<longrightarrow>
                  calls' = [] \<and> negotiationState t' = negotiationStateNone))) \<and>
         (res = None \<and> \<not> (negotiationState t = negotiationRetry \<and> Type sd = SDPTypeAnswer) \<longrightarrow>
            negotiationState t' = negotiationStateNone \<and>
            calls = CallSetRemoteDescription sd None # map applied (pendingCandidates t)) \<and>
         (res \<noteq> None \<or> \<not> (negotiationState t = negotiationRetry \<and> Type sd = SDPTypeAnswer) \<longrightarrow>
            \<not> list_ex isOfferCall calls)"
proof -
  have "\<exists>p1 p2 calls'.
               pcSetRemoteDescription eng (pc t) sd = (None, p1) \<and>
               drainPendingCandidates eng (pendingCandidates t) p1 =
                 (None, p2, map applied (pendingCandidates t)) \<and>
               calls = CallSetRemoteDescription sd None # map applied (pendingCandidates t) @ calls' \<and>
               (onOffer t \<and> pcConnectionState eng p2 \<noteq> PeerConnectionStateClosed \<longrightarrow>
                  (\<exists>err. fst (pcCreateOffer eng p2 None) = Inl err \<and>
                         calls' = [CallCreateOffer None (Inl err)] \<and>
                         negotiationState t' = negotiationStateNone) \<or>
                  (\<exists>offer err.
                         fst (pcCreateOffer eng p2 None) = Inr offer \<and>
                         fst (pcSetLocalDescription eng (snd (pcCreateOffer eng p2 None)) offer) = Some err \<and>
                         calls' = [CallCreateOffer None (Inr offer), CallSetLocalDescription offer (Some err)] \<and>
                         negotiationState t' = negotiationStateNone) \<or>
                  (\<exists>offer.
                         fst (pcCreateOffer eng p2 None) = Inr offer \<and>
                         fst (pcSetLocalDescription eng (snd (pcCreateOffer eng p2 None)) offer) = None \<and>
                         calls' = [CallCreateOffer None (Inr offer), CallSetLocalDescription offer None,
                                   CallOnOffer offer] \<and>
                         negotiationState t' = negotiationStateClient)) \<and>
               (\<not> onOffer t \<or> pcConnectionState eng p2 = PeerConnectionStateClosed \<longrightarrow>
                  calls' = [] \<and> negotiationState t' = negotiationStateNone)"
    if ok: "res = None" and retry: "negotiationState t = negotiationRetry" and answer: "Type sd = SDPTypeAnswer"
  proof -
    from run ok have "SetRemoteDescription eng sd t = (None, t', calls)" by simp
    from srd_renegotiates [OF this retry answer] obtain p1 p2 res' calls' where
      a: "pcSetRemoteDescription eng (pc t) sd = (None, p1)"
         "drainPendingCandidates eng (pendingCandidates t) p1 = (None, p2, map applied (pendingCandidates t))"
         "calls = CallSetRemoteDescription sd None # map applied (pendingCandidates t) @ calls'"
      and co: "createAndSendOffer eng None
             (t\<lparr>negotiationState := negotiationStateNone, pc := p2, pendingCandidates := []\<rparr>) =
             (res', t', calls')"
      by blast
    have "negotiationState (t\<lparr>negotiationState := negotiationStateNone, pc := p2, pendingCandidates := []\<rparr>) =
       negotiationStateNone" by simp
    from cso_nil_options_idle [OF this co] a show ?thesis by simp
  qed
  with srd_no_follow_up [OF run] show ?thesis by blast
qed

text \<open>
  The theorem on the retry scenario of the specification: an offer, a second request
  before the answer, then the answer, which is followed by a second offer that is
  delivered. In the second run the peer connection refuses to create the second offer:
  the answer is still accepted, and the state ends as \<open>negotiationStateNone\<close>. The same
  answer without the second request is followed by nothing.
\<close>

theorem answer_in_retry_triggers_offer_witness:
  "negotiationState (retryPending (newScriptedPC [])) = negotiationRetry \<and>
   onOffer (retryPending (newScriptedPC [])) \<and>
   Type clientAnswer = SDPTypeAnswer \<and>
   SetRemoteDescription scriptedPC clientAnswer (retryPending (newScriptedPC [])) =
     (None, fst (snd (SetRemoteDescription scriptedPC clientAnswer (retryPending (newScriptedPC [])))),
      [CallSetRemoteDescription clientAnswer None, CallCreateOffer None (Inr scriptedOffer),
       CallSetLocalDescription scriptedOffer None, CallOnOffer scriptedOffer]) \<and>
   negotiationState (fst (snd (SetRemoteDescription scriptedPC clientAnswer (retryPending (newScriptedPC []))))) =
     negotiationStateClient \<and>
   negotiationState (retryPending (newScriptedPC [True, True, True, False])) = negotiationRetry \<and>
   onOffer (retryPending (newScriptedPC [True, True, True, False])) \<and>
   SetRemoteDescription scriptedPC clientAnswer (retryPending (newScriptedPC [True, True, True, False])) =
     (None,
      fst (snd (SetRemoteDescription scriptedPC clientAnswer (retryPending (newScriptedPC [True, True, True, False])))),
      [CallSetRemoteDescription clientAnswer None, CallCreateOffer None (Inl ''rejected'')]) \<and>
   negotiationState
     (fst (snd (SetRemoteDescription scriptedPC clientAnswer (retryPending (newScriptedPC [True, True, True, False]))))) =
     negotiationStateNone \<and>
   negotiationState (awaitingClient (newScriptedPC [])) \<noteq> negotiationRetry \<and>
   SetRemoteDescription scriptedPC clientAnswer (awaitingClient (newScriptedPC [])) =
     (None, fst (snd (SetRemoteDescription scriptedPC clientAnswer (awaitingClient (newScriptedPC [])))),
      [CallSetRemoteDescription clientAnswer None]) \<and>
   negotiationState (fst (snd (SetRemoteDescription scriptedPC clientAnswer (awaitingClient (newScriptedPC []))))) =
     negotiationStateNone \<and>
   \<not> list_ex isOfferCall [CallSetRemoteDescription clientAnswer None]"
proof -
  let ?t1 = "retryPending (newScriptedPC [])"
  let ?t2 = "retryPending (newScriptedPC [True, True, True, False])"
  let ?t3 = "awaitingClient (newScriptedPC [])"
  have a: "negotiationState ?t1 = negotiationRetry" "onOffer ?t1" "pendingCandidates ?t1 = []"
    "negotiationState ?t2 = negotiationRetry" "onOffer ?t2" "pendingCandidates ?t2 = []"
    "Type clientAnswer = SDPTypeAnswer"
    "negotiationState ?t3 \<noteq> negotiationRetry"
    by (simp_all add: ex_defs)
  have open1: "pcConnectionState scriptedPC p2 \<noteq> PeerConnectionStateClosed"
    if "pcSetRemoteDescription scriptedPC (pc ?t1) clientAnswer = (None, p1)"
      "drainPendingCandidates scriptedPC [] p1 = (None, p2, [])" for p1 p2
    using that by (auto simp: ex_defs)
  have open2: "pcConnectionState scriptedPC p2 \<noteq> PeerConnectionStateClosed"
    if "pcSetRemoteDescription scriptedPC (pc ?t2) clientAnswer = (None, p1)"
      "drainPendingCandidates scriptedPC [] p1 = (None, p2, [])" for p1 p2
    using that by (auto simp: ex_defs)
  from answer_in_retry_triggers_offer [OF renegotiation_run] a open1
  have b: "negotiationState (fst (snd (SetRemoteDescription scriptedPC clientAnswer ?t1))) = negotiationStateClient"
    by auto
  from answer_in_retry_triggers_offer [OF failed_renegotiation_run] a open2
  have c: "negotiationState (fst (snd (SetRemoteDescription scriptedPC clientAnswer ?t2))) = negotiationStateNone"
    by auto
  from answer_in_retry_triggers_offer [OF plain_answer_run] a
  have d: "negotiationState (fst (snd (SetRemoteDescription scriptedPC clientAnswer ?t3))) = negotiationStateNone"
    "\<not> list_ex isOfferCall [CallSetRemoteDescription clientAnswer None]" by simp_all
  from a b c d renegotiation_run failed_renegotiation_run plain_answer_run show ?thesis by simp
qed

text \<open>
  Without a handler the answer is not followed by an offer. A handler is registered, an
  offer is sent, a second request is postponed, and the handler is taken away by
  \<open>OnOffer(nil)\<close>. The answer then arrives in state \<open>negotiationRetry\<close> and is accepted:
  \<open>SetRemoteDescription\<close> returns success, \<open>CreateOffer\<close> is not called, and the state
  ends as \<open>negotiationStateNone\<close>.
\<close>

theorem answer_in_retry_without_handler_no_offer:
  "negotiationState handlerRemoved = negotiationRetry \<and>
   Type clientAnswer = SDPTypeAnswer \<and>
   fst (SetRemoteDescription scriptedPC clientAnswer handlerRemoved) = None \<and>
   snd (snd (SetRemoteDescription scriptedPC clientAnswer handlerRemoved)) =
     [CallSetRemoteDescription clientAnswer None] \<and>
   negotiationState (fst (snd (SetRemoteDescription scriptedPC clientAnswer handlerRemoved))) =
     negotiationStateNone"
  by (simp add: handlerRemoved_def ex_defs SetRemoteDescription_def)

text \<open>
  Claim C3, as amended. A run of \<open>createAndSendOffer\<close> in state \<open>negotiationStateClient\<close>
  that is not an ICE restart with a current remote description returns success and calls
  nothing, so no offer is created or delivered. The state becomes \<open>negotiationRetry\<close> when
  the guards of the offer path pass: a handler is registered, the peer connection is not
  closed, and the request is not an ICE restart made while gathering. When a guard ends
  the run first, the state stays \<open>negotiationStateClient\<close>. In state \<open>negotiationRetry\<close> the
  run calls nothing and the state stays \<open>negotiationRetry\<close>; when the guards pass, the
  transport is unchanged. An offer that is delivered from state \<open>negotiationStateClient\<close>
  is an ICE restart with a current remote description.
\<close>

theorem awaiting_client_postpones_offer:
  assumes run: "createAndSendOffer eng options t = (res, t', calls)"
  shows "(negotiationState t = negotiationStateClient \<and>
          \<not> (iceRestartRequested options \<and> pcCurrentRemoteDescription eng (pc t) \<noteq> None) \<longrightarrow>
            res = None \<and> calls = [] \<and>
            (offerGuardsPass eng options t \<longrightarrow> t' = t\<lparr>negotiationState := negotiationRetry\<rparr>) \<and>
            (\<not> offerGuardsPass eng options t \<longrightarrow> negotiationState t' = negotiationStateClient)) \<and>
         (negotiationState t = negotiationRetry \<longrightarrow>
            res = None \<and> calls = [] \<and> negotiationState t' = negotiationRetry \<and>
            (offerGuardsPass eng options t \<longrightarrow> t' = t)) \<and>
         (negotiationState t = negotiationStateClient \<and> CallOnOffer offer \<in> set calls \<longrightarrow>
            iceRestartRequested options \<and> pcCurrentRemoteDescription eng (pc t) \<noteq> None)"
proof (cases "offerGuardsPass eng options t")
  case False
  from cso_guards_fail [OF False] run have "res = None \<and> calls = [] \<and> negotiationState t' = negotiationState t"
    by (auto split: if_splits)
  with False show ?thesis by simp
next
  case True
  show ?thesis
  proof (cases "negotiationState t")
    case negotiationStateNone
    then show ?thesis by simp
  next
    case negotiationRetry
    from cso_retry [OF True negotiationRetry] run negotiationRetry show ?thesis by simp
  next
    case negotiationStateClient
    show ?thesis
    proof (cases "iceRestartRequested options \<and> pcCurrentRemoteDescription eng (pc t) \<noteq> None")
      case False
      from cso_client_postponed [OF True negotiationStateClient False] run negotiationStateClient True False
      show ?thesis by simp
    next
      case ov: True
      with negotiationStateClient show ?thesis by simp
    qed
  qed
qed

text \<open>
  The theorem on three runs: a second request while the first offer is unanswered; a
  third request after that; and an ICE restart on a transport that holds a current remote
  description, which does deliver an offer.
\<close>

theorem awaiting_client_postpones_offer_witness:
  "negotiationState (awaitingClient (newScriptedPC [])) = negotiationStateClient \<and>
   \<not> iceRestartRequested None \<and>
   offerGuardsPass scriptedPC None (awaitingClient (newScriptedPC [])) \<and>
   createAndSendOffer scriptedPC None (awaitingClient (newScriptedPC [])) =
     (None, (awaitingClient (newScriptedPC []))\<lparr>negotiationState := negotiationRetry\<rparr>, []) \<and>
   negotiationState (retryPending (newScriptedPC [])) = negotiationRetry \<and>
   offerGuardsPass scriptedPC None (retryPending (newScriptedPC [])) \<and>
   createAndSendOffer scriptedPC None (retryPending (newScriptedPC [])) =
     (None, retryPending (newScriptedPC []), []) \<and>
   negotiationState (awaitingClient answeredPC) = negotiationStateClient \<and>
   CallOnOffer scriptedOffer \<in>
     set (snd (snd (createAndSendOffer scriptedPC restartOptions (awaitingClient answeredPC)))) \<and>
   iceRestartRequested restartOptions \<and>
   pcCurrentRemoteDescription scriptedPC (pc (awaitingClient answeredPC)) \<noteq> None"
proof -
  have a: "negotiationState (awaitingClient (newScriptedPC [])) = negotiationStateClient"
    "\<not> iceRestartRequested None"
    "offerGuardsPass scriptedPC None (awaitingClient (newScriptedPC []))"
    "negotiationState (retryPending (newScriptedPC [])) = negotiationRetry"
    "offerGuardsPass scriptedPC None (retryPending (newScriptedPC []))"
    "negotiationState (awaitingClient answeredPC) = negotiationStateClient"
    by (simp_all add: ex_defs)
  have b: "CallOnOffer scriptedOffer \<in>
     set (snd (snd (createAndSendOffer scriptedPC restartOptions (awaitingClient answeredPC))))"
    by (subst override_run) simp
  have c: "CallOnOffer scriptedOffer \<in> set [CallSetRemoteDescription clientAnswer None, CallCreateOffer restartOptions (Inr scriptedOffer),
       CallSetLocalDescription scriptedOffer None, CallOnOffer scriptedOffer]" by simp
  from awaiting_client_postpones_offer [OF postponed_run] awaiting_client_postpones_offer [OF skipped_run]
    awaiting_client_postpones_offer [OF override_run, of scriptedOffer]
    a b c postponed_run skipped_run
  show ?thesis by simp
qed

text \<open>
  Without the guards the statement fails: an ICE restart requested in state
  \<open>negotiationStateClient\<close>, with no current remote description, while the peer connection
  is gathering, is put off by \<open>restartAfterGathering\<close> and leaves the state at
  \<open>negotiationStateClient\<close>; it is not demoted to \<open>negotiationRetry\<close>.
\<close>

theorem ice_restart_while_gathering_not_demoted:
  "negotiationState (awaitingClient gatheringPC) = negotiationStateClient \<and>
   iceRestartRequested restartOptions \<and>
   pcCurrentRemoteDescription scriptedPC (pc (awaitingClient gatheringPC)) = None \<and>
   createAndSendOffer scriptedPC restartOptions (awaitingClient gatheringPC) =
     (None, (awaitingClient gatheringPC)\<lparr>restartAfterGathering := True\<rparr>, []) \<and>
   negotiationState ((awaitingClient gatheringPC)\<lparr>restartAfterGathering := True\<rparr>) = negotiationStateClient"
  by (simp add: ex_defs)

text \<open>
  Claim C4, as amended. On a transport with a registered handler whose peer connection is
  not closed, an ICE-restart request made while the peer connection is gathering calls
  nothing and sets \<open>restartAfterGathering\<close>. When the peer connection reports that gathering
  is complete and the flag is set, the offer path is run with \<open>ICERestart = true\<close>. Every
  run of the offer path that delivers an offer leaves the flag cleared.
\<close>

theorem ice_restart_deferred_while_gathering:
  "(onOffer t \<and> pcConnectionState eng (pc t) \<noteq> PeerConnectionStateClosed \<and>
    iceRestartRequested options \<and> pcICEGatheringState eng (pc t) = ICEGatheringStateGathering \<longrightarrow>
      createAndSendOffer eng options t = (None, t\<lparr>restartAfterGathering := True\<rparr>, [])) \<and>
   (restartAfterGathering t \<longrightarrow>
      onICEGatheringStateChange eng ICEGathererStateComplete t =
        snd (createAndSendOffer eng (Some \<lparr>ICERestart = True\<rparr>) t)) \<and>
   (createAndSendOffer eng options t = (res, t', calls) \<and> CallOnOffer offer \<in> set calls \<longrightarrow>
      \<not> restartAfterGathering t')"
proof -
  have "createAndSendOffer eng options t = (res, t', calls) \<and> CallOnOffer offer \<in> set calls \<longrightarrow>
      \<not> restartAfterGathering t'"
    using cso_sent [of eng options t res t' calls offer] by blast
  then show ?thesis
    by (simp add: cso_deferred onICEGatheringStateChange_def)
qed

text \<open>
  The theorem on the scenario of the specification: the restart is requested while
  gathering, gathering completes, and the offer is then delivered with the flag cleared.
\<close>

theorem ice_restart_deferred_while_gathering_witness:
  "onOffer (offerer gatheringPC) \<and>
   pcConnectionState scriptedPC (pc (offerer gatheringPC)) \<noteq> PeerConnectionStateClosed \<and>
   iceRestartRequested restartOptions \<and>
   pcICEGatheringState scriptedPC (pc (offerer gatheringPC)) = ICEGatheringStateGathering \<and>
   createAndSendOffer scriptedPC restartOptions (offerer gatheringPC) =
     (None, (offerer gatheringPC)\<lparr>restartAfterGathering := True\<rparr>, []) \<and>
   restartAfterGathering deferredRestart \<and>
   snd (onICEGatheringStateChange scriptedPC ICEGathererStateComplete deferredRestart) =
     [CallCreateOffer (Some \<lparr>ICERestart = True\<rparr>) (Inr scriptedOffer),
      CallSetLocalDescription scriptedOffer None, CallOnOffer scriptedOffer] \<and>
   \<not> restartAfterGathering (fst (onICEGatheringStateChange scriptedPC ICEGathererStateComplete deferredRestart))"
proof -
  have a: "onOffer (offerer gatheringPC)"
    "pcConnectionState scriptedPC (pc (offerer gatheringPC)) \<noteq> PeerConnectionStateClosed"
    "iceRestartRequested restartOptions"
    "pcICEGatheringState scriptedPC (pc (offerer gatheringPC)) = ICEGatheringStateGathering"
    by (simp_all add: scripted_defs)
  have b: "restartAfterGathering deferredRestart"
    by (simp add: scripted_defs more_defs)
  have c: "CallOnOffer scriptedOffer \<in> set [CallCreateOffer (Some \<lparr>ICERestart = True\<rparr>) (Inr scriptedOffer),
       CallSetLocalDescription scriptedOffer None, CallOnOffer scriptedOffer]" by simp
  note w1 = ice_restart_deferred_while_gathering [of "offerer gatheringPC" scriptedPC restartOptions]
  note w2 = ice_restart_deferred_while_gathering [of deferredRestart scriptedPC "Some \<lparr>ICERestart = True\<rparr>"
      None "fst (snd (createAndSendOffer scriptedPC (Some \<lparr>ICERestart = True\<rparr>) deferredRestart))"
      "[CallCreateOffer (Some \<lparr>ICERestart = True\<rparr>) (Inr scriptedOffer),
       CallSetLocalDescription scriptedOffer None, CallOnOffer scriptedOffer]" scriptedOffer]
  from w1 a have d: "createAndSendOffer scriptedPC restartOptions (offerer gatheringPC) =
     (None, (offerer gatheringPC)\<lparr>restartAfterGathering := True\<rparr>, [])" by blast
  from w2 b have e: "onICEGatheringStateChange scriptedPC ICEGathererStateComplete deferredRestart =
        snd (createAndSendOffer scriptedPC (Some \<lparr>ICERestart = True\<rparr>) deferredRestart)" by blast
  from w2 deferredRestart_fires c
  have f: "\<not> restartAfterGathering (fst (snd (createAndSendOffer scriptedPC (Some \<lparr>ICERestart = True\<rparr>) deferredRestart)))"
    by blast
  have g: "snd (snd (createAndSendOffer scriptedPC (Some \<lparr>ICERestart = True\<rparr>) deferredRestart)) =
      [CallCreateOffer (Some \<lparr>ICERestart = True\<rparr>) (Inr scriptedOffer),
       CallSetLocalDescription scriptedOffer None, CallOnOffer scriptedOffer]"
    using deferredRestart_fires by (metis snd_conv)
  from a b d e f g show ?thesis by simp
qed

text \<open>
  Without a registered handler the statement fails: on a new transport the same request
  returns at the first guard and \<open>restartAfterGathering\<close> stays false.
\<close>

theorem ice_restart_without_handler_not_deferred:
  "\<not> onOffer (NewPCTransport gatheringPC) \<and>
   pcICEGatheringState scriptedPC (pc (NewPCTransport gatheringPC)) = ICEGatheringStateGathering \<and>
   iceRestartRequested restartOptions \<and>
   createAndSendOffer scriptedPC restartOptions (NewPCTransport gatheringPC) =
     (None, NewPCTransport gatheringPC, []) \<and>
   \<not> restartAfterGathering (NewPCTransport gatheringPC)"
  by (simp add: scripted_defs)

text \<open>
  Claim C5. \<open>GetTransceiverForSending\<close> returns the first transceiver, in the order of the
  peer connection, whose kind is the kind of the track, whose sender exists and carries no
  track, and whose recorded codecs for its mid contain the MIME type asked for; when no
  transceiver meets the three conditions it returns nothing.
\<close>

theorem GetTransceiverForSending_first_match:
  "GetTransceiverForSending eng track codec t =
     find (suitableForSending (transceiverCodecs t) track codec) (pcGetTransceivers eng (pc t))"
  by (simp add: GetTransceiverForSending_def firstTransceiverForSending_find)

text \<open>
  The theorem on six transceivers: for VP8 the first match is the fifth transceiver (the
  first is audio, the second carries a track, the third has no sender, the fourth has
  recorded H264 only); for H264 it is the fourth; for a codec that no video transceiver
  has recorded there is none.
\<close>

theorem GetTransceiverForSending_first_match_witness:
  "GetTransceiverForSending scriptedPC videoTrack codecVP8 sendingTransport =
     Some \<lparr>Mid = ''4'', Kind = RTPCodecTypeVideo, Sender = Some freeSender\<rparr> \<and>
   GetTransceiverForSending scriptedPC videoTrack codecH264 sendingTransport =
     Some \<lparr>Mid = ''3'', Kind = RTPCodecTypeVideo, Sender = Some freeSender\<rparr> \<and>
   GetTransceiverForSending scriptedPC videoTrack codecOpus sendingTransport = None"
proof -
  have "find (suitableForSending (transceiverCodecs sendingTransport) videoTrack codecVP8)
          (pcGetTransceivers scriptedPC (pc sendingTransport)) =
        Some \<lparr>Mid = ''4'', Kind = RTPCodecTypeVideo, Sender = Some freeSender\<rparr>"
    "find (suitableForSending (transceiverCodecs sendingTransport) videoTrack codecH264)
          (pcGetTransceivers scriptedPC (pc sendingTransport)) =
        Some \<lparr>Mid = ''3'', Kind = RTPCodecTypeVideo, Sender = Some freeSender\<rparr>"
    "find (suitableForSending (transceiverCodecs sendingTransport) videoTrack codecOpus)
          (pcGetTransceivers scriptedPC (pc sendingTransport)) = None"
    by (simp_all add: sendingTransport_def exampleTransceivers_def suitableForSending_def codecsOfMid_def
        scriptedPC_def newScriptedPC_def NewPCTransport_def videoTrack_def freeSender_def
        codecVP8_def codecH264_def codecOpus_def)
  then show ?thesis by (simp add: GetTransceiverForSending_first_match)
qed

text \<open>
  Claim C8. When \<open>CreateOffer\<close> or \<open>SetLocalDescription\<close> fails in a run of
  \<open>createAndSendOffer\<close>, the run returns that error, and the negotiation state and
  \<open>restartAfterGathering\<close> are what they were before the run.
\<close>

theorem failed_offer_keeps_state:
  assumes run: "createAndSendOffer eng options t = (res, t', calls)"
    and failed: "CallCreateOffer opts (Inl err) \<in> set calls \<or>
                 CallSetLocalDescription offer (Some err) \<in> set calls"
  shows "res = Some err \<and> negotiationState t' = negotiationState t \<and>
         restartAfterGathering t' = restartAfterGathering t"
using run proof (cases rule: cso_cases)
  case skipped
  with failed show ?thesis by simp
next
  case (override_failed currentSD err' p')
  with failed show ?thesis by simp
next
  case (offered t1 calls0)
  from offered(4) failed have "CallCreateOffer opts (Inl err) \<in> set calls0 \<or>
                 CallSetLocalDescription offer (Some err) \<in> set calls0" by auto
  from createOfferAndSend_failure [OF offered(1) this] offered(2,3) show ?thesis by simp
qed

text \<open>
  The theorem on two runs: one in which \<open>CreateOffer\<close> is refused, one in which
  \<open>SetLocalDescription\<close> is.
\<close>

theorem failed_offer_keeps_state_witness:
  "createAndSendOffer scriptedPC None (offerer (newScriptedPC [False])) =
     (Some ''rejected'', offerer (newScriptedPC []), [CallCreateOffer None (Inl ''rejected'')]) \<and>
   createAndSendOffer scriptedPC None (offerer (newScriptedPC [True, False])) =
     (Some ''rejected'', offerer (newScriptedPC []),
      [CallCreateOffer None (Inr scriptedOffer), CallSetLocalDescription scriptedOffer (Some ''rejected'')]) \<and>
   negotiationState (offerer (newScriptedPC [])) = negotiationState (offerer (newScriptedPC [False])) \<and>
   negotiationState (offerer (newScriptedPC [])) = negotiationState (offerer (newScriptedPC [True, False])) \<and>
   restartAfterGathering (offerer (newScriptedPC [])) = restartAfterGathering (offerer (newScriptedPC [False])) \<and>
   restartAfterGathering (offerer (newScriptedPC [])) = restartAfterGathering (offerer (newScriptedPC [True, False]))"
proof -
  have a: "CallCreateOffer None (Inl ''rejected'') \<in> set [CallCreateOffer None (Inl ''rejected'')] \<or>
           CallSetLocalDescription scriptedOffer (Some ''rejected'') \<in> set [CallCreateOffer None (Inl ''rejected'')]"
    by simp
  have b: "CallCreateOffer None (Inl ''rejected'') \<in>
             set [CallCreateOffer None (Inr scriptedOffer), CallSetLocalDescription scriptedOffer (Some ''rejected'')] \<or>
           CallSetLocalDescription scriptedOffer (Some ''rejected'') \<in>
             set [CallCreateOffer None (Inr scriptedOffer), CallSetLocalDescription scriptedOffer (Some ''rejected'')]"
    by simp
  from failed_offer_keeps_state [OF failing_runs(1) a] failed_offer_keeps_state [OF failing_runs(2) b]
    failing_runs
  show ?thesis by simp
qed

text \<open>
  Claim C9. On a peer connection in state \<open>Closed\<close>, \<open>createAndSendOffer\<close> returns success
  whatever the options, leaves every field of the transport as it is, and calls nothing:
  no offer is created or delivered.
\<close>

theorem closed_transport_noop:
  "pcConnectionState eng (pc t) = PeerConnectionStateClosed \<Longrightarrow>
   createAndSendOffer eng options t = (None, t, [])"
  by (simp add: createAndSendOffer_def)

text \<open>
  The theorem on a closed scripted peer connection, with and without an ICE restart.
\<close>

theorem closed_transport_noop_witness:
  "pcConnectionState scriptedPC (pc (offerer closedPC)) = PeerConnectionStateClosed \<and>
   createAndSendOffer scriptedPC None (offerer closedPC) = (None, offerer closedPC, []) \<and>
   createAndSendOffer scriptedPC restartOptions (offerer closedPC) = (None, offerer closedPC, [])"
proof -
  have c: "pcConnectionState scriptedPC (pc (offerer closedPC)) = PeerConnectionStateClosed"
    by (simp add: scriptedPC_def offerer_def OnOffer_def NewPCTransport_def closedPC_def)
  from closed_transport_noop [OF c, of None] closed_transport_noop [OF c, of restartOptions] c
  show ?thesis by simp
qed

end
